theory Spec2Isabelle
  imports Main "HOL-Library.Product_Lexorder"
begin

section \<open>Fractional indexing (backend/src/utils/fractionalIndex.ts)\<close>

text \<open>
  Position keys are JavaScript strings; they are modelled as \<open>char list\<close>.  A JavaScript
  \<open>number\<close> that only ever holds an alphabet index or a difference of two of them is an
  \<open>int\<close>.
\<close>

definition BASE_CHARS :: string where
  "BASE_CHARS = ''0123456789ABCDEFGHIJKLMNOPQRSTUVWXYZabcdefghijklmnopqrstuvwxyz''"

definition BASE :: int where
  "BASE = int (length BASE_CHARS)"

text \<open>\<open>String.prototype.indexOf\<close> for a one-character needle; \<open>None\<close> stands for \<open>-1\<close>.\<close>

fun indexOf :: "string \<Rightarrow> char \<Rightarrow> nat option" where
  "indexOf [] c = None"
| "indexOf (x # xs) c = (if x = c then Some 0 else map_option Suc (indexOf xs c))"

definition MID_CHAR :: char where
  "MID_CHAR = BASE_CHARS ! nat (BASE div 2)"

definition charToIndex :: "char \<Rightarrow> int" where
  "charToIndex c = (case indexOf BASE_CHARS c of None \<Rightarrow> 0 | Some index \<Rightarrow> int index)"

definition indexToChar :: "int \<Rightarrow> char" where
  "indexToChar index = BASE_CHARS ! nat (max 0 (min index (BASE - 1)))"

definition generateInitialPosition :: string where
  "generateInitialPosition = ''V''"

text \<open>
  \<open>comparePositions\<close>: the \<open>for\<close> loop over \<open>i < maxLen\<close>; a symbol missing from the
  shorter string counts as index \<open>-1\<close>.
\<close>

function comparePositions_loop :: "string \<Rightarrow> string \<Rightarrow> nat \<Rightarrow> int" where
  "comparePositions_loop a b i =
     (if i < max (length a) (length b) then
        (let aIdx = (if i < length a then charToIndex (a ! i) else - 1);
             bIdx = (if i < length b then charToIndex (b ! i) else - 1)
         in if aIdx \<noteq> bIdx then aIdx - bIdx else comparePositions_loop a b (i + 1))
      else 0)"
  by pat_completeness auto
termination
  by (relation "measure (\<lambda>(a, b, i). max (length a) (length b) - i)") auto

declare comparePositions_loop.simps [simp del]

definition comparePositions :: "string \<Rightarrow> string \<Rightarrow> int" where
  "comparePositions a b = comparePositions_loop a b 0"

definition isValidPosition :: "string \<Rightarrow> bool" where
  "isValidPosition position =
     (if position = [] then False else list_all (\<lambda>c. c \<in> set BASE_CHARS) position)"

text \<open>\<open>decrementPosition\<close>: the \<open>while\<close> loop that walks left over minimum symbols.\<close>

function decrement_scan :: "string \<Rightarrow> int \<Rightarrow> int" where
  "decrement_scan pos i =
     (if i \<ge> 0 \<and> charToIndex (pos ! nat i) = 0 then decrement_scan pos (i - 1) else i)"
  by pat_completeness auto
termination
  by (relation "measure (\<lambda>(pos, i). nat (i + 1))") auto

declare decrement_scan.simps [simp del]

text \<open>The \<open>for\<close> loop that overwrites every symbol from index \<open>j\<close> on with the maximum.\<close>

function fill_max :: "string \<Rightarrow> nat \<Rightarrow> string" where
  "fill_max chars j =
     (if j < length chars then fill_max (chars[j := indexToChar (BASE - 1)]) (j + 1) else chars)"
  by pat_completeness auto
termination
  by (relation "measure (\<lambda>(chars, j). length chars - j)") auto

declare fill_max.simps [simp del]

definition decrementPosition :: "string \<Rightarrow> string" where
  "decrementPosition pos =
     (let i = decrement_scan pos (int (length pos) - 1) in
      if i < 0 then CHR ''0'' # [indexToChar (BASE div 4)]
      else
        (let chars = pos[nat i := indexToChar (charToIndex (pos ! nat i) - 1)]
         in fill_max chars (nat i + 1) @ [MID_CHAR]))"

function increment_scan :: "string \<Rightarrow> int \<Rightarrow> int" where
  "increment_scan pos i =
     (if i \<ge> 0 \<and> charToIndex (pos ! nat i) = BASE - 1 then increment_scan pos (i - 1) else i)"
  by pat_completeness auto
termination
  by (relation "measure (\<lambda>(pos, i). nat (i + 1))") auto

declare increment_scan.simps [simp del]

definition incrementPosition :: "string \<Rightarrow> string" where
  "incrementPosition pos =
     (let i = increment_scan pos (int (length pos) - 1) in
      if i < 0 then pos @ [MID_CHAR]
      else
        (let chars = pos[nat i := indexToChar (charToIndex (pos ! nat i) + 1)]
         in take (nat i + 1) chars))"

datatype error =
    InvalidOrder string string
  | TypeError
  | SqlSyntaxError string
  | NumericValueOutOfRange
  | StringDataRightTruncation
  | UniqueViolation

text \<open>\<open>String.prototype.padEnd\<close> with a one-character filler.\<close>

definition padEnd :: "nat \<Rightarrow> char \<Rightarrow> string \<Rightarrow> string" where
  "padEnd n c s = s @ replicate (n - length s) c"

text \<open>The scanning loop of \<open>midpoint\<close>; \<open>result\<close> is the prefix built so far.\<close>

function midpoint_loop :: "string \<Rightarrow> string \<Rightarrow> nat \<Rightarrow> nat \<Rightarrow> string \<Rightarrow> string" where
  "midpoint_loop paddedBefore paddedAfter maxLen i result =
     (if i < maxLen then
        (let beforeIdx = charToIndex (paddedBefore ! i);
             afterIdx = charToIndex (paddedAfter ! i)
         in if beforeIdx = afterIdx
            then midpoint_loop paddedBefore paddedAfter maxLen (i + 1) (result @ [paddedBefore ! i])
            else
              (let midIdx = (beforeIdx + afterIdx) div 2
               in if midIdx > beforeIdx then result @ [indexToChar midIdx]
                  else (result @ [paddedBefore ! i]) @ [MID_CHAR]))
      else result @ [MID_CHAR])"
  by pat_completeness auto
termination
  by (relation "measure (\<lambda>(pb, pa, maxLen, i, result). maxLen - i)") auto

declare midpoint_loop.simps [simp del]

definition midpoint :: "string \<Rightarrow> string \<Rightarrow> error + string" where
  "midpoint beforePos afterPos =
     (if comparePositions beforePos afterPos \<ge> 0 then Inl (InvalidOrder beforePos afterPos)
      else
        (let maxLen = max (length beforePos) (length afterPos);
             paddedBefore = padEnd maxLen (BASE_CHARS ! 0) beforePos;
             paddedAfter = padEnd maxLen (BASE_CHARS ! 0) afterPos
         in Inr (midpoint_loop paddedBefore paddedAfter maxLen 0 [])))"

text \<open>
  An optional string argument is a \<open>string option\<close>; JavaScript's \<open>!x\<close> holds for
  \<open>undefined\<close> and for the empty string.
\<close>

definition falsy :: "string option \<Rightarrow> bool" where
  "falsy x = (case x of None \<Rightarrow> True | Some s \<Rightarrow> s = [])"

definition generatePositionBetween :: "string option \<Rightarrow> string option \<Rightarrow> error + string" where
  "generatePositionBetween beforePos afterPos =
     (if falsy beforePos \<and> falsy afterPos then Inr generateInitialPosition
      else if falsy beforePos then Inr (decrementPosition (the afterPos))
      else if falsy afterPos then Inr (incrementPosition (the beforePos))
      else midpoint (the beforePos) (the afterPos))"

definition generatePositionBefore :: "string \<Rightarrow> error + string" where
  "generatePositionBefore position = generatePositionBetween None (Some position)"

definition generatePositionAfter :: "string \<Rightarrow> error + string" where
  "generatePositionAfter position = generatePositionBetween (Some position) None"

text \<open>
  Reference comparison, used to state what \<open>comparePositions\<close> computes: lexicographic
  comparison of two lists of alphabet indices in which a symbol that is absent from the
  shorter list counts as \<open>-1\<close>, one below the smallest index.
\<close>

fun lexCompare :: "int list \<Rightarrow> int list \<Rightarrow> int" where
  "lexCompare [] [] = 0"
| "lexCompare [] (y # ys) = - 1 - y"
| "lexCompare (x # xs) [] = x - (- 1)"
| "lexCompare (x # xs) (y # ys) = (if x \<noteq> y then x - y else lexCompare xs ys)"

section \<open>The record store and the concurrency controller\<close>

subsection \<open>Types (types/index.ts)\<close>

datatype Column = Todo | In_progress | Done

text \<open>The string value of a column, as it is interpolated into messages.\<close>

fun column_name :: "Column \<Rightarrow> string" where
  "column_name Todo = ''todo''"
| "column_name In_progress = ''in_progress''"
| "column_name Done = ''done''"

text \<open>
  A row of table \<open>tasks\<close> and the \<open>Task\<close> object made from it.  Versions are JavaScript
  numbers holding integers; timestamps are kept as numbers (the rendering of a date by
  \<open>toISOString\<close> is left out).
\<close>

record TaskRow =
  row_id :: string
  row_title :: string
  row_description :: string
  row_column :: Column
  row_position :: string
  row_version :: int
  created_at :: nat
  updated_at :: nat

record Task =
  taskId :: string
  title :: string
  description :: string
  column :: Column
  position :: string
  version :: int
  createdAt :: nat
  updatedAt :: nat

text \<open>The inputs after parsing (\<open>z.infer\<close> of the schemas).\<close>

record CreateTaskInput =
  c_title :: string
  c_description :: string
  c_column :: Column

record UpdateTaskInput =
  u_id :: string
  u_title :: "string option"
  u_description :: "string option"
  u_version :: int

record MoveTaskInput =
  m_id :: string
  m_column :: Column
  m_position :: string
  m_version :: int

record DeleteTaskInput =
  d_id :: string
  d_version :: int

text \<open>
  A create request before parsing: \<open>description\<close> and \<open>column\<close> are optional and get
  defaults.
\<close>

record CreateTaskRaw =
  raw_title :: string
  raw_description :: "string option"
  raw_column :: "Column option"

text \<open>
  The schemas.  \<open>isUuid\<close> stands for the validation library's test of
  \<open>z.string().uuid()\<close>; it is a parameter.  A number that is not an integer, and a field
  of the wrong type, are excluded by the types of the records.
\<close>

definition CreateTaskSchema :: "CreateTaskRaw \<Rightarrow> CreateTaskInput option" where
  "CreateTaskSchema input =
     (if 1 \<le> length (raw_title input) \<and> length (raw_title input) \<le> 500
         \<and> (case raw_description input of None \<Rightarrow> True | Some d \<Rightarrow> length d \<le> 5000)
      then Some \<lparr>c_title = raw_title input,
                 c_description = (case raw_description input of None \<Rightarrow> [] | Some d \<Rightarrow> d),
                 c_column = (case raw_column input of None \<Rightarrow> Todo | Some c \<Rightarrow> c)\<rparr>
      else None)"

definition UpdateTaskSchema :: "(string \<Rightarrow> bool) \<Rightarrow> UpdateTaskInput \<Rightarrow> UpdateTaskInput option" where
  "UpdateTaskSchema isUuid input =
     (if isUuid (u_id input)
         \<and> (case u_title input of None \<Rightarrow> True | Some t \<Rightarrow> 1 \<le> length t \<and> length t \<le> 500)
         \<and> (case u_description input of None \<Rightarrow> True | Some d \<Rightarrow> length d \<le> 5000)
         \<and> 0 < u_version input
      then Some input else None)"

definition MoveTaskSchema :: "(string \<Rightarrow> bool) \<Rightarrow> MoveTaskInput \<Rightarrow> MoveTaskInput option" where
  "MoveTaskSchema isUuid input =
     (if isUuid (m_id input) \<and> 0 < m_version input then Some input else None)"

definition DeleteTaskSchema :: "(string \<Rightarrow> bool) \<Rightarrow> DeleteTaskInput \<Rightarrow> DeleteTaskInput option" where
  "DeleteTaskSchema isUuid input =
     (if isUuid (d_id input) \<and> 0 < d_version input then Some input else None)"

subsection \<open>The repository (db/taskRepository.ts)\<close>

text \<open>
  The table \<open>tasks\<close> is a list of rows, taken to exist with the columns that the migration
  lists.  Each repository function runs in one transaction, so it is one function from the
  table to an error or to a result and the new table; an error rolls the transaction back,
  so the caller keeps the table it had.  What the database adds is a parameter: \<open>now\<close> is
  the value of \<open>NOW()\<close> (the default of the time stamps, and what the \<open>BEFORE UPDATE\<close>
  trigger writes to \<open>updated_at\<close>), \<open>newId\<close> is the identifier drawn by \<open>uuidv4()\<close>, and
  \<open>le\<close> is the order that \<open>ORDER BY position\<close> sorts by (the collation of the column).
  Identifiers are compared as strings; the database compares them as \<open>UUID\<close> values, which
  differs only for two spellings of one identifier.
\<close>

definition rowToTask :: "TaskRow \<Rightarrow> Task" where
  "rowToTask row =
     \<lparr>taskId = row_id row, title = row_title row, description = row_description row,
      column = row_column row, position = row_position row, version = row_version row,
      createdAt = created_at row, updatedAt = updated_at row\<rparr>"

text \<open>
  What PostgreSQL does with a statement.  The parser rejects a statement that uses a
  reserved word as a bare identifier; of the identifiers in the statements of the
  repository (\<open>tasks\<close>, \<open>id\<close>, \<open>title\<close>, \<open>description\<close>, \<open>column\<close>, \<open>position\<close>,
  \<open>version\<close>) the word \<open>column\<close> is reserved.  \<open>parse\<close> takes the identifiers of a
  statement as its text has them.
\<close>

definition pg_reserved :: "string \<Rightarrow> bool" where
  "pg_reserved w = (w = ''column'')"

definition parse :: "string list \<Rightarrow> error + unit" where
  "parse identifiers =
     (case filter pg_reserved identifiers of
        [] \<Rightarrow> Inr ()
      | w # _ \<Rightarrow> Inl (SqlSyntaxError w))"

text \<open>
  A value written to an \<open>INTEGER\<close> column must lie in the range of four bytes.  A string
  written to a \<open>VARCHAR(n)\<close> column must have at most \<open>n\<close> characters, unless the excess
  is all spaces, which is cut off.
\<close>

definition int4 :: "int \<Rightarrow> error + int" where
  "int4 v = (if - 2147483648 \<le> v \<and> v \<le> 2147483647 then Inr v else Inl NumericValueOutOfRange)"

definition varchar :: "nat \<Rightarrow> string \<Rightarrow> error + string" where
  "varchar n s =
     (if length s \<le> n then Inr s
      else if list_all (\<lambda>c. c = CHR 0x20) (drop n s) then Inr (take n s)
      else Inl StringDataRightTruncation)"

text \<open>\<open>SELECT ... FROM tasks WHERE id = $1 FOR UPDATE\<close>.\<close>

definition select_by_id :: "string \<Rightarrow> TaskRow list \<Rightarrow> TaskRow list" where
  "select_by_id i store = filter (\<lambda>r. row_id r = i) store"

text \<open>
  \<open>UPDATE tasks SET ... WHERE id = $n RETURNING *\<close>: the statement is parsed; then \<open>upd\<close>
  computes the new value of every row with the identifier (raising where a new value does
  not fit its column), the trigger stamps the row, and the changed rows are returned
  together with the new table.
\<close>

fun update_rows ::
  "string \<Rightarrow> (TaskRow \<Rightarrow> error + TaskRow) \<Rightarrow> TaskRow list \<Rightarrow> error + (TaskRow list \<times> TaskRow list)" where
  "update_rows i upd [] = Inr ([], [])"
| "update_rows i upd (r # rs) =
     (if row_id r = i then
        (case upd r of
           Inl e \<Rightarrow> Inl e
         | Inr r' \<Rightarrow>
             (case update_rows i upd rs of
                Inl e \<Rightarrow> Inl e
              | Inr (changed, rs') \<Rightarrow> Inr (r' # changed, r' # rs')))
      else
        (case update_rows i upd rs of
           Inl e \<Rightarrow> Inl e
         | Inr (changed, rs') \<Rightarrow> Inr (changed, r # rs')))"

definition update_by_id ::
  "string list \<Rightarrow> string \<Rightarrow> (TaskRow \<Rightarrow> error + TaskRow) \<Rightarrow> nat \<Rightarrow> TaskRow list
     \<Rightarrow> error + (TaskRow list \<times> TaskRow list)" where
  "update_by_id identifiers i upd now store =
     (case parse identifiers of
        Inl e \<Rightarrow> Inl e
      | Inr _ \<Rightarrow>
          update_rows i
            (\<lambda>r. case upd r of Inl e \<Rightarrow> Inl e | Inr r' \<Rightarrow> Inr (r'\<lparr>updated_at := now\<rparr>))
            store)"

text \<open>
  \<open>SELECT position FROM tasks WHERE column = $1 ORDER BY position DESC LIMIT 1\<close>: once
  parsed, at most one row, holding a greatest position of the column under the order
  \<open>le\<close>.
\<close>

definition select_last_position ::
  "(string \<Rightarrow> string \<Rightarrow> bool) \<Rightarrow> Column \<Rightarrow> TaskRow list \<Rightarrow> error + string list" where
  "select_last_position le c store =
     (case parse [''position'', ''tasks'', ''column'', ''position''] of
        Inl e \<Rightarrow> Inl e
      | Inr _ \<Rightarrow>
          Inr (case map row_position (filter (\<lambda>r. row_column r = c) store) of
                 [] \<Rightarrow> []
               | p # ps \<Rightarrow> [foldl (\<lambda>m q. if le m q then q else m) p ps]))"

text \<open>
  \<open>INSERT INTO tasks (id, title, description, column, position, version) VALUES (...)
  RETURNING *\<close>: once parsed, the values must fit their columns and the identifier must be
  new (it is the primary key); the time stamps get their default.
\<close>

definition insert_task ::
  "string \<Rightarrow> string \<Rightarrow> string \<Rightarrow> Column \<Rightarrow> string \<Rightarrow> int \<Rightarrow> nat \<Rightarrow> TaskRow list
     \<Rightarrow> error + (TaskRow list \<times> TaskRow list)" where
  "insert_task i t d c p v now store =
     (case parse [''tasks'', ''id'', ''title'', ''description'', ''column'', ''position'',
                  ''version''] of
        Inl e \<Rightarrow> Inl e
      | Inr _ \<Rightarrow>
          (case varchar 500 t of
             Inl e \<Rightarrow> Inl e
           | Inr t' \<Rightarrow>
               (case varchar 50 p of
                  Inl e \<Rightarrow> Inl e
                | Inr p' \<Rightarrow>
                    (case int4 v of
                       Inl e \<Rightarrow> Inl e
                     | Inr v' \<Rightarrow>
                         if i \<in> set (map row_id store) then Inl UniqueViolation
                         else
                           (let row = \<lparr>row_id = i, row_title = t', row_description = d,
                                       row_column = c, row_position = p', row_version = v',
                                       created_at = now, updated_at = now\<rparr>
                            in Inr ([row], store @ [row]))))))"

definition createTask ::
  "(string \<Rightarrow> string \<Rightarrow> bool) \<Rightarrow> string \<Rightarrow> nat \<Rightarrow> CreateTaskInput \<Rightarrow> TaskRow list
     \<Rightarrow> error + (Task \<times> TaskRow list)" where
  "createTask le newId now input store =
     (case select_last_position le (c_column input) store of
        Inl e \<Rightarrow> Inl e
      | Inr lastTask \<Rightarrow>
          (let position = (case lastTask of
                             p # _ \<Rightarrow> generatePositionAfter p
                           | [] \<Rightarrow> generatePositionBetween None None)
           in case position of
                Inl e \<Rightarrow> Inl e
              | Inr pos \<Rightarrow>
                  (case insert_task newId (c_title input)
                          (if c_description input = [] then [] else c_description input)
                          (c_column input) pos 1 now store of
                     Inl e \<Rightarrow> Inl e
                   | Inr (rows, store') \<Rightarrow>
                       (case rows of
                          [] \<Rightarrow> Inl TypeError
                        | row # _ \<Rightarrow> Inr (rowToTask row, store')))))"

record UpdateResult =
  ur_task :: "Task option"
  ur_conflict :: bool
  ur_currentVersion :: "int option"

text \<open>
  \<open>updateTask\<close> builds its \<open>UPDATE\<close> from the fields the request has: \<open>title = $k\<close> and
  \<open>description = $k\<close> where given, and always \<open>version = version + 1\<close>.
\<close>

definition updateTask ::
  "nat \<Rightarrow> UpdateTaskInput \<Rightarrow> TaskRow list \<Rightarrow> error + (UpdateResult \<times> TaskRow list)" where
  "updateTask now input store =
     (case select_by_id (u_id input) store of
        [] \<Rightarrow> Inr (\<lparr>ur_task = None, ur_conflict = False, ur_currentVersion = None\<rparr>, store)
      | currentTask # _ \<Rightarrow>
          if row_version currentTask \<noteq> u_version input
          then Inr (\<lparr>ur_task = Some (rowToTask currentTask), ur_conflict = True,
                     ur_currentVersion = Some (row_version currentTask)\<rparr>, store)
          else
            (let updates = (case u_title input of None \<Rightarrow> [] | Some t \<Rightarrow> [''title''])
                          @ (case u_description input of None \<Rightarrow> [] | Some d \<Rightarrow> [''description''])
                          @ [''version'', ''version''];
                 setTitle = (\<lambda>r. case u_title input of
                                     None \<Rightarrow> Inr r
                                   | Some t \<Rightarrow>
                                       (case varchar 500 t of
                                          Inl e \<Rightarrow> Inl e
                                        | Inr t' \<Rightarrow> Inr (r\<lparr>row_title := t'\<rparr>)));
                 setDescription = (\<lambda>r. case u_description input of
                                           None \<Rightarrow> r | Some d \<Rightarrow> r\<lparr>row_description := d\<rparr>);
                 setVersion = (\<lambda>v r. case int4 (v + 1) of
                                         Inl e \<Rightarrow> Inl e
                                       | Inr v' \<Rightarrow> Inr (r\<lparr>row_version := v'\<rparr>))
             in case update_by_id ([''tasks''] @ updates @ [''id'']) (u_id input)
                       (\<lambda>r. case setTitle r of
                               Inl e \<Rightarrow> Inl e
                             | Inr r' \<Rightarrow> setVersion (row_version r) (setDescription r'))
                       now store of
                  Inl e \<Rightarrow> Inl e
                | Inr (rows, store') \<Rightarrow>
                    (case rows of
                       [] \<Rightarrow> Inl TypeError
                     | row # _ \<Rightarrow>
                         Inr (\<lparr>ur_task = Some (rowToTask row), ur_conflict = False,
                               ur_currentVersion = None\<rparr>, store'))))"

datatype ConflictType = version_mismatch | concurrent_move | concurrent_edit

record MoveResult =
  mr_task :: "Task option"
  mr_conflict :: bool
  mr_currentVersion :: "int option"
  mr_conflictType :: "ConflictType option"

text \<open>
  \<open>moveTask\<close>: its \<open>UPDATE tasks SET column = $1, position = $2, version = version + 1
  WHERE id = $3 RETURNING *\<close> names the column \<open>column\<close> bare.
\<close>

definition moveTask ::
  "nat \<Rightarrow> MoveTaskInput \<Rightarrow> TaskRow list \<Rightarrow> error + (MoveResult \<times> TaskRow list)" where
  "moveTask now input store =
     (case select_by_id (m_id input) store of
        [] \<Rightarrow> Inr (\<lparr>mr_task = None, mr_conflict = False, mr_currentVersion = None,
                     mr_conflictType = None\<rparr>, store)
      | currentTask # _ \<Rightarrow>
          if row_version currentTask \<noteq> m_version input
          then Inr (\<lparr>mr_task = Some (rowToTask currentTask), mr_conflict = True,
                     mr_currentVersion = Some (row_version currentTask),
                     mr_conflictType = Some version_mismatch\<rparr>, store)
          else
            (case update_by_id
                    [''tasks'', ''column'', ''position'', ''version'', ''version'', ''id'']
                    (m_id input)
                    (\<lambda>r. case varchar 50 (m_position input) of
                            Inl e \<Rightarrow> Inl e
                          | Inr p \<Rightarrow>
                              (case int4 (row_version r + 1) of
                                 Inl e \<Rightarrow> Inl e
                               | Inr v \<Rightarrow>
                                   Inr (r\<lparr>row_column := m_column input, row_position := p,
                                          row_version := v\<rparr>)))
                    now store of
               Inl e \<Rightarrow> Inl e
             | Inr (rows, store') \<Rightarrow>
                 (case rows of
                    [] \<Rightarrow> Inl TypeError
                  | row # _ \<Rightarrow>
                      Inr (\<lparr>mr_task = Some (rowToTask row), mr_conflict = False,
                            mr_currentVersion = None, mr_conflictType = None\<rparr>, store'))))"

record DeleteResult =
  deleted :: bool
  dr_conflict :: bool

definition deleteTask :: "string \<Rightarrow> int \<Rightarrow> TaskRow list \<Rightarrow> DeleteResult \<times> TaskRow list" where
  "deleteTask i v store =
     (case select_by_id i store of
        [] \<Rightarrow> (\<lparr>deleted = False, dr_conflict = False\<rparr>, store)
      | current # _ \<Rightarrow>
          if row_version current \<noteq> v then (\<lparr>deleted = False, dr_conflict = True\<rparr>, store)
          else (\<lparr>deleted = True, dr_conflict = False\<rparr>, filter (\<lambda>r. row_id r \<noteq> i) store))"

subsection \<open>The service (services/taskService.ts)\<close>

text \<open>
  An error reply is a message; the text that the validation library puts after
  \<open>Validation error:\<close> is not modelled.
\<close>

datatype ServiceError = ValidationError | Message string

record Conflict =
  conflict_type :: ConflictType
  currentVersion :: "int option"
  currentTask :: "Task option"
  message :: string

record 'a ServiceResult =
  success :: bool
  data :: "'a option"
  error :: "ServiceError option"
  conflict :: "Conflict option"

definition service_createTask ::
  "(string \<Rightarrow> string \<Rightarrow> bool) \<Rightarrow> string \<Rightarrow> nat \<Rightarrow> CreateTaskRaw \<Rightarrow> TaskRow list
     \<Rightarrow> Task ServiceResult \<times> TaskRow list" where
  "service_createTask le newId now input store =
     (case CreateTaskSchema input of
        None \<Rightarrow> (\<lparr>success = False, data = None, error = Some ValidationError, conflict = None\<rparr>,
                  store)
      | Some validated \<Rightarrow>
          (case createTask le newId now validated store of
             Inl e \<Rightarrow> (\<lparr>success = False, data = None,
                         error = Some (Message ''Failed to create task''), conflict = None\<rparr>, store)
           | Inr (task, store') \<Rightarrow>
               (\<lparr>success = True, data = Some task, error = None, conflict = None\<rparr>, store')))"

definition service_updateTask ::
  "(string \<Rightarrow> bool) \<Rightarrow> nat \<Rightarrow> UpdateTaskInput \<Rightarrow> TaskRow list
     \<Rightarrow> Task ServiceResult \<times> TaskRow list" where
  "service_updateTask isUuid now input store =
     (case UpdateTaskSchema isUuid input of
        None \<Rightarrow> (\<lparr>success = False, data = None, error = Some ValidationError, conflict = None\<rparr>,
                  store)
      | Some validated \<Rightarrow>
          (case updateTask now validated store of
             Inl e \<Rightarrow> (\<lparr>success = False, data = None,
                         error = Some (Message ''Failed to update task''), conflict = None\<rparr>, store)
           | Inr (result, store') \<Rightarrow>
               (case ur_task result of
                  None \<Rightarrow> (\<lparr>success = False, data = None,
                              error = Some (Message ''Task not found''), conflict = None\<rparr>, store')
                | Some task \<Rightarrow>
                    if ur_conflict result
                    then (\<lparr>success = False, data = None, error = None,
                           conflict = Some
                             \<lparr>conflict_type = version_mismatch,
                              currentVersion = ur_currentVersion result,
                              currentTask = Some task,
                              message = ''Task was modified by another user. Your changes could not be applied.''\<rparr>\<rparr>,
                          store')
                    else (\<lparr>success = True, data = Some task, error = None, conflict = None\<rparr>,
                          store'))))"

definition service_moveTask ::
  "(string \<Rightarrow> bool) \<Rightarrow> nat \<Rightarrow> MoveTaskInput \<Rightarrow> TaskRow list
     \<Rightarrow> Task ServiceResult \<times> TaskRow list" where
  "service_moveTask isUuid now input store =
     (case MoveTaskSchema isUuid input of
        None \<Rightarrow> (\<lparr>success = False, data = None, error = Some ValidationError, conflict = None\<rparr>,
                  store)
      | Some validated \<Rightarrow>
          (case moveTask now validated store of
             Inl e \<Rightarrow> (\<lparr>success = False, data = None,
                         error = Some (Message ''Failed to move task''), conflict = None\<rparr>, store)
           | Inr (result, store') \<Rightarrow>
               (case mr_task result of
                  None \<Rightarrow> (\<lparr>success = False, data = None,
                              error = Some (Message ''Task not found''), conflict = None\<rparr>, store')
                | Some task \<Rightarrow>
                    if mr_conflict result
                    then (\<lparr>success = False, data = None, error = None,
                           conflict = Some
                             \<lparr>conflict_type = concurrent_move,
                              currentVersion = mr_currentVersion result,
                              currentTask = Some task,
                              message = ''Task was moved by another user to '' @ [CHR 0x22]
                                @ column_name (column task) @ [CHR 0x22]
                                @ ''. Your move was not applied.''\<rparr>\<rparr>,
                          store')
                    else (\<lparr>success = True, data = Some task, error = None, conflict = None\<rparr>,
                          store'))))"

definition service_deleteTask ::
  "(string \<Rightarrow> bool) \<Rightarrow> DeleteTaskInput \<Rightarrow> TaskRow list
     \<Rightarrow> string ServiceResult \<times> TaskRow list" where
  "service_deleteTask isUuid input store =
     (case DeleteTaskSchema isUuid input of
        None \<Rightarrow> (\<lparr>success = False, data = None, error = Some ValidationError, conflict = None\<rparr>,
                  store)
      | Some validated \<Rightarrow>
          (let (result, store') = deleteTask (d_id validated) (d_version validated) store
           in if \<not> deleted result \<and> \<not> dr_conflict result
              then (\<lparr>success = False, data = None,
                     error = Some (Message ''Task not found''), conflict = None\<rparr>, store')
              else if dr_conflict result
              then (\<lparr>success = False, data = None, error = None,
                     conflict = Some
                       \<lparr>conflict_type = version_mismatch, currentVersion = None,
                        currentTask = None,
                        message = ''Task was modified by another user and cannot be deleted.''\<rparr>\<rparr>,
                    store')
              else (\<lparr>success = True, data = Some (d_id validated), error = None,
                     conflict = None\<rparr>, store')))"

section \<open>The client: store, offline queue and message handling\<close>

subsection \<open>Types (frontend types)\<close>

text \<open>
  The client's \<open>Task\<close> has the fields of the server's; the record \<open>Task\<close> serves for
  both.  The payload of a message is \<open>unknown\<close> in the source and a type parameter here.
\<close>

datatype ConnectionStatus = connected | disconnected | reconnecting

record 'p WSMessage =
  msg_type :: string
  payload :: 'p
  clientId :: string
  timestamp :: nat
  messageId :: string

record 'm QueuedOperation =
  op_id :: string
  op_type :: string
  op_payload :: 'm
  op_timestamp :: nat
  retryCount :: nat

record PendingOperation =
  pending_type :: string
  originalTask :: "Task option"

text \<open>
  The state of the store (\<open>TaskState\<close>) without the user list, the current user object
  and the conflict toasts, which the actions below do not touch.  \<open>pendingOperations\<close> is
  a JavaScript \<open>Map\<close>.
\<close>

record 'm TaskState =
  tasks :: "Task list"
  currentUserId :: "string option"
  connectionStatus :: ConnectionStatus
  offlineQueue :: "'m QueuedOperation list"
  pendingOperations :: "string \<rightharpoonup> PendingOperation"

subsection \<open>The store (store/taskStore.ts)\<close>

fun columnOrder :: "Column \<Rightarrow> nat" where
  "columnOrder Todo = 0"
| "columnOrder In_progress = 1"
| "columnOrder Done = 2"

text \<open>
  \<open>sortTasksByPosition\<close> copies the array and sorts it with a comparator that orders by
  column first and by \<open>localeCompare\<close> of the positions next.  \<open>Array.prototype.sort\<close> is
  stable, so the result is the stable sort by the pair of the column's rank and the
  position's place in the locale's collation.  The collation is a parameter: \<open>collate\<close> maps
  a string to its sort key in some linear order, and \<open>localeCompare\<close> compares the keys.
\<close>

definition sortTasksByPosition :: "(string \<Rightarrow> 'k::linorder) \<Rightarrow> Task list \<Rightarrow> Task list" where
  "sortTasksByPosition collate ts =
     sort_key (\<lambda>t. (columnOrder (column t), collate (position t))) ts"

definition getTaskById :: "string \<Rightarrow> 'm TaskState \<Rightarrow> Task option" where
  "getTaskById i state = find (\<lambda>task. taskId task = i) (tasks state)"

definition addTask :: "(string \<Rightarrow> 'k::linorder) \<Rightarrow> Task \<Rightarrow> 'm TaskState \<Rightarrow> 'm TaskState" where
  "addTask collate task state =
     state\<lparr>tasks := sortTasksByPosition collate (tasks state @ [task])\<rparr>"

definition store_updateTask ::
  "(string \<Rightarrow> 'k::linorder) \<Rightarrow> Task \<Rightarrow> 'm TaskState \<Rightarrow> 'm TaskState" where
  "store_updateTask collate updatedTask state =
     state\<lparr>tasks := sortTasksByPosition collate
        (map (\<lambda>task. if taskId task = taskId updatedTask then updatedTask else task)
           (tasks state))\<rparr>"

definition setConnectionStatus :: "ConnectionStatus \<Rightarrow> 'm TaskState \<Rightarrow> 'm TaskState" where
  "setConnectionStatus status state = state\<lparr>connectionStatus := status\<rparr>"

text \<open>
  \<open>addToQueue\<close>: \<open>newId\<close> is the identifier drawn by \<open>uuidv4()\<close> and \<open>now\<close> the value of
  \<open>Date.now()\<close>.
\<close>

definition addToQueue ::
  "string \<Rightarrow> nat \<Rightarrow> string \<Rightarrow> 'm \<Rightarrow> 'm TaskState \<Rightarrow> 'm TaskState" where
  "addToQueue newId now operation_type operation_payload state =
     (let queuedOp = \<lparr>op_id = newId, op_type = operation_type, op_payload = operation_payload,
                       op_timestamp = now, retryCount = 0\<rparr>
      in state\<lparr>offlineQueue := offlineQueue state @ [queuedOp]\<rparr>)"

definition removeFromQueue :: "string \<Rightarrow> 'm TaskState \<Rightarrow> 'm TaskState" where
  "removeFromQueue operationId state =
     state\<lparr>offlineQueue := filter (\<lambda>op. op_id op \<noteq> operationId) (offlineQueue state)\<rparr>"

definition setPendingOperation ::
  "string \<Rightarrow> string \<Rightarrow> Task option \<Rightarrow> 'm TaskState \<Rightarrow> 'm TaskState" where
  "setPendingOperation mid ty orig state =
     state\<lparr>pendingOperations :=
       (pendingOperations state)(mid \<mapsto> \<lparr>pending_type = ty, originalTask = orig\<rparr>)\<rparr>"

definition resolvePendingOperation :: "string \<Rightarrow> 'm TaskState \<Rightarrow> 'm TaskState" where
  "resolvePendingOperation mid state =
     state\<lparr>pendingOperations := (pendingOperations state)(mid := None)\<rparr>"

subsection \<open>The socket hook (hooks/useWebSocket.ts)\<close>

text \<open>
  A socket is its ready state and the frames handed to \<open>send\<close>, oldest first.
  \<open>JSON.stringify\<close> is the parameter \<open>stringify\<close>.
\<close>

record Socket =
  readyOpen :: bool
  sent :: "string list"

definition ws_send :: "string \<Rightarrow> Socket \<Rightarrow> Socket" where
  "ws_send frame ws = ws\<lparr>sent := sent ws @ [frame]\<rparr>"

text \<open>
  \<open>sendMessage\<close>: \<open>now\<close>, \<open>newMessageId\<close>, \<open>queuedAt\<close> and \<open>newOpId\<close> are the values of
  \<open>Date.now()\<close> and \<open>uuidv4()\<close> it draws, the latter two inside \<open>addToQueue\<close>.  The
  result is the new store state, the socket and the returned message identifier.
\<close>

definition sendMessage ::
  "('p WSMessage \<Rightarrow> string) \<Rightarrow> nat \<Rightarrow> string \<Rightarrow> nat \<Rightarrow> string \<Rightarrow> string \<times> 'p
     \<Rightarrow> 'p WSMessage TaskState \<times> Socket \<Rightarrow> ('p WSMessage TaskState \<times> Socket) \<times> string" where
  "sendMessage stringify now newMessageId queuedAt newOpId msg s =
     (let (state, ws) = s;
          fullMessage = \<lparr>msg_type = fst msg, payload = snd msg,
                         clientId = (if falsy (currentUserId state) then ''unknown''
                                     else the (currentUserId state)),
                         timestamp = now, messageId = newMessageId\<rparr>
      in if readyOpen ws then ((state, ws_send (stringify fullMessage) ws), newMessageId)
         else ((addToQueue newOpId queuedAt (fst msg) fullMessage state, ws), newMessageId))"

text \<open>
  The replay in \<open>ws.onopen\<close>: \<open>forEach\<close> over the queue as it is when the socket opens;
  each operation is sent and removed if the socket is open.
\<close>

fun replay ::
  "('m \<Rightarrow> string) \<Rightarrow> 'm QueuedOperation list \<Rightarrow> 'm TaskState \<times> Socket \<Rightarrow> 'm TaskState \<times> Socket" where
  "replay stringify [] s = s"
| "replay stringify (operation # queue) (state, ws) =
     (if readyOpen ws
      then replay stringify queue
             (removeFromQueue (op_id operation) state, ws_send (stringify (op_payload operation)) ws)
      else replay stringify queue (state, ws))"

definition onopen :: "('m \<Rightarrow> string) \<Rightarrow> 'm TaskState \<times> Socket \<Rightarrow> 'm TaskState \<times> Socket" where
  "onopen stringify s =
     (let (state, ws) = s;
          state1 = setConnectionStatus connected state;
          queue = offlineQueue state1
      in replay stringify queue (state1, ws))"

text \<open>The \<open>sync:ack\<close> case of \<open>handleMessage\<close>; the payload is \<open>{messageId, task?}\<close>.\<close>

record AckPayload =
  ack_messageId :: string
  ack_task :: "Task option"

definition handle_sync_ack ::
  "(string \<Rightarrow> 'k::linorder) \<Rightarrow> AckPayload \<Rightarrow> 'm TaskState \<Rightarrow> 'm TaskState" where
  "handle_sync_ack collate p state =
     (let state1 = resolvePendingOperation (ack_messageId p) state
      in case ack_task p of
           None \<Rightarrow> state1
         | Some task \<Rightarrow>
             (case getTaskById (taskId task) state1 of
                Some existingTask \<Rightarrow> store_updateTask collate task state1
              | None \<Rightarrow> addTask collate task state1))"

section \<open>Properties of the ordering engine\<close>

subsection \<open>The alphabet\<close>

lemma indexOf_Some: "indexOf xs c = Some i \<Longrightarrow> i < length xs \<and> xs ! i = c"
  by (induction xs arbitrary: i) (auto split: if_splits)

lemma indexOf_None: "(indexOf xs c = None) = (c \<notin> set xs)"
  by (induction xs) auto

lemma indexOf_nth: "distinct xs \<Longrightarrow> i < length xs \<Longrightarrow> indexOf xs (xs ! i) = Some i"
proof (induction xs arbitrary: i)
  case Nil
  then show ?case by simp
next
  case (Cons x xs)
  then show ?case by (cases i) auto
qed

lemma length_BASE_CHARS: "length BASE_CHARS = 62"
  by (simp add: BASE_CHARS_def)

lemma distinct_BASE_CHARS: "distinct BASE_CHARS"
  by (simp add: BASE_CHARS_def)

lemma BASE_eq: "BASE = 62"
  by (simp add: BASE_def length_BASE_CHARS)

lemma charToIndex_range: "0 \<le> charToIndex c \<and> charToIndex c \<le> 61"
proof (cases "indexOf BASE_CHARS c")
  case None
  then show ?thesis by (simp add: charToIndex_def)
next
  case (Some i)
  then have "i < 62" using indexOf_Some [OF Some] by (simp add: length_BASE_CHARS)
  with Some show ?thesis by (simp add: charToIndex_def)
qed

lemma charToIndex_indexToChar: "0 \<le> k \<Longrightarrow> k \<le> 61 \<Longrightarrow> charToIndex (indexToChar k) = k"
proof -
  assume k: "0 \<le> k" "k \<le> 61"
  then have "nat k < length BASE_CHARS" by (simp add: length_BASE_CHARS)
  then have "indexOf BASE_CHARS (BASE_CHARS ! nat k) = Some (nat k)"
    by (rule indexOf_nth [OF distinct_BASE_CHARS])
  with k show ?thesis by (simp add: charToIndex_def indexToChar_def BASE_eq)
qed

lemma charToIndex_inj:
  assumes "c \<in> set BASE_CHARS" "d \<in> set BASE_CHARS" "charToIndex c = charToIndex d"
  shows "c = d"
proof -
  from assms(1) obtain i where i: "indexOf BASE_CHARS c = Some i"
    using indexOf_None [of BASE_CHARS c] by (cases "indexOf BASE_CHARS c") auto
  from assms(2) obtain j where j: "indexOf BASE_CHARS d = Some j"
    using indexOf_None [of BASE_CHARS d] by (cases "indexOf BASE_CHARS d") auto
  from i j assms(3) have "i = j" by (simp add: charToIndex_def)
  with indexOf_Some [OF i] indexOf_Some [OF j] show ?thesis by simp
qed

lemma map_charToIndex_inj:
  "list_all (\<lambda>c. c \<in> set BASE_CHARS) a \<Longrightarrow> list_all (\<lambda>c. c \<in> set BASE_CHARS) b \<Longrightarrow>
   map charToIndex a = map charToIndex b \<Longrightarrow> a = b"
proof (induction a arbitrary: b)
  case Nil
  then show ?case by simp
next
  case (Cons x a)
  then show ?case by (cases b) (auto dest: charToIndex_inj)
qed

lemma nonneg_map_charToIndex: "list_all (\<lambda>x. 0 \<le> x) (map charToIndex a)"
  by (simp add: list_all_iff charToIndex_range)

subsection \<open>The comparison loop computes the reference comparison\<close>

lemma comparePositions_loop_lex:
  "comparePositions_loop a b i =
     lexCompare (map charToIndex (drop i a)) (map charToIndex (drop i b))"
proof (induction a b i rule: comparePositions_loop.induct)
  case (1 a b i)
  show ?case
  proof (cases "i < max (length a) (length b)")
    case False
    then show ?thesis by (subst comparePositions_loop.simps) simp
  next
    case True
    note lt = True
    show ?thesis
    proof (cases "i < length a")
      case ia: True
      show ?thesis
      proof (cases "i < length b")
        case ib: True
        from ia ib show ?thesis
          using "1.IH" [OF lt refl refl]
          by (subst comparePositions_loop.simps)
             (auto simp add: Cons_nth_drop_Suc [symmetric] Let_def)
      next
        case ib: False
        from ia ib charToIndex_range [of "a ! i"] show ?thesis
          by (subst comparePositions_loop.simps)
             (simp add: Cons_nth_drop_Suc [symmetric] Let_def)
      qed
    next
      case ia: False
      with lt have ib: "i < length b" by simp
      from ia ib charToIndex_range [of "b ! i"] show ?thesis
        by (subst comparePositions_loop.simps)
           (simp add: Cons_nth_drop_Suc [symmetric] Let_def)
    qed
  qed
qed

lemma comparePositions_lex:
  "comparePositions a b = lexCompare (map charToIndex a) (map charToIndex b)"
  by (simp add: comparePositions_def comparePositions_loop_lex)

lemma lexCompare_refl: "lexCompare xs xs = 0"
  by (induction xs) auto

lemma lexCompare_eq0:
  "list_all (\<lambda>x. 0 \<le> x) xs \<Longrightarrow> list_all (\<lambda>x. 0 \<le> x) ys \<Longrightarrow> lexCompare xs ys = 0 \<Longrightarrow> xs = ys"
  by (induction xs ys rule: lexCompare.induct) (auto split: if_splits)

lemma lexCompare_flip: "lexCompare ys xs = - lexCompare xs ys"
  by (induction xs ys rule: lexCompare.induct) auto

lemma lexCompare_trans:
  "list_all (\<lambda>x. 0 \<le> x) xs \<Longrightarrow> list_all (\<lambda>x. 0 \<le> x) ys \<Longrightarrow> list_all (\<lambda>x. 0 \<le> x) zs \<Longrightarrow>
   lexCompare xs ys < 0 \<Longrightarrow> lexCompare ys zs < 0 \<Longrightarrow> lexCompare xs zs < 0"
proof (induction xs ys arbitrary: zs rule: lexCompare.induct)
  case 1
  then show ?case by simp
next
  case (2 y ys)
  then show ?case by (cases zs) auto
next
  case (3 x xs)
  then show ?case by simp
next
  case (4 x xs y ys)
  then show ?case by (cases zs) (auto split: if_splits)
qed

lemma lexCompare_trans_le:
  "list_all (\<lambda>x. 0 \<le> x) xs \<Longrightarrow> list_all (\<lambda>x. 0 \<le> x) ys \<Longrightarrow> list_all (\<lambda>x. 0 \<le> x) zs \<Longrightarrow>
   lexCompare xs ys \<le> 0 \<Longrightarrow> lexCompare ys zs < 0 \<Longrightarrow> lexCompare xs zs < 0"
proof (induction xs ys arbitrary: zs rule: lexCompare.induct)
  case 1
  then show ?case by simp
next
  case (2 y ys)
  then show ?case by (cases zs) auto
next
  case (3 x xs)
  then show ?case by simp
next
  case (4 x xs y ys)
  then show ?case by (cases zs) (auto split: if_splits)
qed

lemma comparePositions_trans:
  "comparePositions a b < 0 \<Longrightarrow> comparePositions b c < 0 \<Longrightarrow> comparePositions a c < 0"
  unfolding comparePositions_lex
  by (rule lexCompare_trans [OF nonneg_map_charToIndex nonneg_map_charToIndex
        nonneg_map_charToIndex])

lemma comparePositions_trans_le:
  "comparePositions a b \<le> 0 \<Longrightarrow> comparePositions b c < 0 \<Longrightarrow> comparePositions a c < 0"
  unfolding comparePositions_lex
  by (rule lexCompare_trans_le [OF nonneg_map_charToIndex nonneg_map_charToIndex
        nonneg_map_charToIndex])

lemma lexCompare_le_trans:
  "list_all (\<lambda>x. 0 \<le> x) xs \<Longrightarrow> list_all (\<lambda>x. 0 \<le> x) ys \<Longrightarrow> list_all (\<lambda>x. 0 \<le> x) zs \<Longrightarrow>
   lexCompare xs ys \<le> 0 \<Longrightarrow> lexCompare ys zs \<le> 0 \<Longrightarrow> lexCompare xs zs \<le> 0"
proof (induction xs ys arbitrary: zs rule: lexCompare.induct)
  case 1
  then show ?case by simp
next
  case (2 y ys)
  then show ?case by (cases zs) auto
next
  case (3 x xs)
  then show ?case by simp
next
  case (4 x xs y ys)
  then show ?case by (cases zs) (auto split: if_splits)
qed

lemma comparePositions_le_trans:
  "comparePositions a b \<le> 0 \<Longrightarrow> comparePositions b c \<le> 0 \<Longrightarrow> comparePositions a c \<le> 0"
  unfolding comparePositions_lex
  by (rule lexCompare_le_trans [OF nonneg_map_charToIndex nonneg_map_charToIndex
        nonneg_map_charToIndex])

lemma comparePositions_flip: "comparePositions b a = - comparePositions a b"
  unfolding comparePositions_lex by (rule lexCompare_flip)

lemma comparePositions_eq0_valid:
  assumes "isValidPosition a" "isValidPosition b" "comparePositions a b = 0"
  shows "a = b"
proof -
  from assms(3) have "map charToIndex a = map charToIndex b"
    unfolding comparePositions_lex
    by (rule lexCompare_eq0 [OF nonneg_map_charToIndex nonneg_map_charToIndex])
  moreover from assms(1) have "list_all (\<lambda>c. c \<in> set BASE_CHARS) a"
    by (simp add: isValidPosition_def split: if_splits)
  moreover from assms(2) have "list_all (\<lambda>c. c \<in> set BASE_CHARS) b"
    by (simp add: isValidPosition_def split: if_splits)
  ultimately show ?thesis by (rule map_charToIndex_inj [rotated 2])
qed

subsection \<open>Claims about the comparison\<close>

text \<open>
  Claim C4, as the code has it.  \<open>comparePositions\<close> is the lexicographic comparison of the
  two strings' alphabet indices in which a symbol missing from the shorter string ranks
  one below the alphabet minimum (so a proper prefix is smaller than each of its
  extensions, and no padding with the minimum symbol takes place).  On valid positions
  it is a strict total order: it returns \<open>0\<close> exactly for equal strings, it is
  irreflexive, antisymmetric in sign, transitive, and any two valid positions are
  comparable.
\<close>

theorem comparePositions_strict_total_order:
  assumes "isValidPosition a" and "isValidPosition b" and "isValidPosition c"
  shows "comparePositions a b = lexCompare (map charToIndex a) (map charToIndex b)
       \<and> (comparePositions a b = 0) = (a = b)
       \<and> \<not> comparePositions a a < 0
       \<and> (comparePositions a b < 0) = (comparePositions b a > 0)
       \<and> (comparePositions a b < 0 \<and> comparePositions b c < 0 \<longrightarrow> comparePositions a c < 0)
       \<and> (comparePositions a b < 0 \<or> a = b \<or> comparePositions b a < 0)"
proof -
  have refl: "comparePositions a a = 0"
    by (simp add: comparePositions_lex lexCompare_refl)
  have eq0: "(comparePositions a b = 0) = (a = b)"
    using comparePositions_eq0_valid [OF assms(1) assms(2)] refl by auto
  have flip: "comparePositions b a = - comparePositions a b"
    by (rule comparePositions_flip)
  have trans: "comparePositions a b < 0 \<and> comparePositions b c < 0 \<longrightarrow> comparePositions a c < 0"
    using comparePositions_trans by blast
  have total: "comparePositions a b < 0 \<or> a = b \<or> comparePositions b a < 0"
    using eq0 flip by linarith
  have irrefl: "\<not> comparePositions a a < 0"
    using refl by simp
  have sign: "(comparePositions a b < 0) = (comparePositions b a > 0)"
    using flip by linarith
  from comparePositions_lex [of a b] eq0 irrefl sign trans total show ?thesis
    by blast
qed

theorem comparePositions_strict_total_order_witness:
  "isValidPosition ''A'' \<and> isValidPosition ''AA'' \<and> isValidPosition ''B''
   \<and> comparePositions ''A'' ''AA'' < 0 \<and> comparePositions ''AA'' ''B'' < 0
   \<and> comparePositions ''A'' ''B'' < 0 \<and> comparePositions ''A'' ''AA'' \<noteq> 0"
proof -
  have v1: "isValidPosition ''A''" by code_simp
  have v2: "isValidPosition ''AA''" by code_simp
  have v3: "isValidPosition ''B''" by code_simp
  have h1: "comparePositions ''A'' ''AA'' < 0" by code_simp
  have h2: "comparePositions ''AA'' ''B'' < 0" by code_simp
  from comparePositions_strict_total_order [OF v1 v2 v3] h1 h2
  have "comparePositions ''A'' ''B'' < 0" and "comparePositions ''A'' ''AA'' \<noteq> 0"
    by simp_all
  with v1 v2 v3 h1 h2 show ?thesis by simp
qed

text \<open>
  Claim C4 as written fails: the one-symbol string of the minimum symbol and the
  two-symbol one agree after padding with the minimum symbol, yet \<open>comparePositions\<close>
  does not return \<open>0\<close> for them.
\<close>

theorem comparePositions_padding_counterexample:
  "isValidPosition ''0'' \<and> isValidPosition ''00''
   \<and> padEnd 2 (BASE_CHARS ! 0) ''0'' = padEnd 2 (BASE_CHARS ! 0) ''00''
   \<and> comparePositions ''0'' ''00'' = - 1"
  by code_simp

subsection \<open>Claims about generated positions\<close>

text \<open>
  \<open>incrementPosition\<close> returns a strictly greater position for every string, and so
  does \<open>generatePositionAfter\<close>.
\<close>

lemma lexCompare_common_prefix: "lexCompare (p @ xs) (p @ ys) = lexCompare xs ys"
  by (induction p) auto

lemma increment_scan_bounds:
  "- 1 \<le> i \<Longrightarrow>
   - 1 \<le> increment_scan pos i \<and> increment_scan pos i \<le> i
   \<and> (0 \<le> increment_scan pos i \<longrightarrow> charToIndex (pos ! nat (increment_scan pos i)) \<noteq> BASE - 1)"
proof (induction pos i rule: increment_scan.induct)
  case (1 pos i)
  show ?case
  proof (cases "i \<ge> 0 \<and> charToIndex (pos ! nat i) = BASE - 1")
    case True
    with "1.IH" [OF True] show ?thesis
      by (subst (1 2 3 4) increment_scan.simps) auto
  next
    case False
    with "1.prems" show ?thesis
      by (subst (1 2 3 4) increment_scan.simps) auto
  qed
qed

lemma incrementPosition_greater: "comparePositions pos (incrementPosition pos) < 0"
proof -
  define i where "i = increment_scan pos (int (length pos) - 1)"
  have b: "- 1 \<le> i \<and> i \<le> int (length pos) - 1
           \<and> (0 \<le> i \<longrightarrow> charToIndex (pos ! nat i) \<noteq> BASE - 1)"
    unfolding i_def by (rule increment_scan_bounds) simp
  show ?thesis
  proof (cases "i < 0")
    case True
    then have "incrementPosition pos = pos @ [MID_CHAR]"
      by (simp add: incrementPosition_def i_def [symmetric])
    moreover have "lexCompare (map charToIndex pos @ []) (map charToIndex pos @ [charToIndex MID_CHAR]) < 0"
      unfolding lexCompare_common_prefix using charToIndex_range [of MID_CHAR] by simp
    ultimately show ?thesis by (simp add: comparePositions_lex)
  next
    case False
    define n where "n = nat i"
    from False b have n: "n < length pos" and i: "i = int n"
      unfolding n_def by linarith+
    from False b have ne: "charToIndex (pos ! n) \<noteq> 61"
      by (simp add: n_def BASE_eq)
    define c where "c = indexToChar (charToIndex (pos ! n) + 1)"
    have cidx: "charToIndex c = charToIndex (pos ! n) + 1"
      unfolding c_def using charToIndex_range [of "pos ! n"] ne
      by (intro charToIndex_indexToChar) auto
    have res: "incrementPosition pos = take n pos @ [c]"
      using False n
      by (simp add: incrementPosition_def i_def [symmetric] i c_def take_Suc_conv_app_nth)
    have pos: "pos = take n pos @ pos ! n # drop (Suc n) pos"
      using n by (rule id_take_nth_drop)
    have "lexCompare (map charToIndex (take n pos) @ charToIndex (pos ! n) # map charToIndex (drop (Suc n) pos))
            (map charToIndex (take n pos) @ [charToIndex c]) < 0"
      unfolding lexCompare_common_prefix by (simp add: cidx)
    then have "lexCompare (map charToIndex (take n pos @ pos ! n # drop (Suc n) pos))
            (map charToIndex (take n pos @ [c])) < 0"
      by simp
    then show ?thesis
      unfolding comparePositions_lex res using pos by simp
  qed
qed

lemma generatePositionAfter_greater:
  "\<exists>y. generatePositionAfter x = Inr y \<and> comparePositions x y < 0"
proof (cases "x = []")
  case True
  have "comparePositions [] ''V'' < 0" by code_simp
  with True show ?thesis
    by (simp add: generatePositionAfter_def generatePositionBetween_def falsy_def
        generateInitialPosition_def)
next
  case False
  then show ?thesis
    by (simp add: generatePositionAfter_def generatePositionBetween_def falsy_def
        incrementPosition_greater)
qed

text \<open>
  Away from the all-minimum strings \<open>decrementPosition\<close> does what its name says: a valid
  position with a symbol other than the minimum gets a strictly smaller position.
\<close>

lemma decrement_scan_bounds:
  "- 1 \<le> i \<Longrightarrow>
   - 1 \<le> decrement_scan pos i \<and> decrement_scan pos i \<le> i
   \<and> (0 \<le> decrement_scan pos i \<longrightarrow> charToIndex (pos ! nat (decrement_scan pos i)) \<noteq> 0)"
proof (induction pos i rule: decrement_scan.induct)
  case (1 pos i)
  show ?case
  proof (cases "i \<ge> 0 \<and> charToIndex (pos ! nat i) = 0")
    case True
    with "1.IH" [OF True] show ?thesis
      by (subst (1 2 3 4) decrement_scan.simps) auto
  next
    case False
    with "1.prems" show ?thesis
      by (subst (1 2 3 4) decrement_scan.simps) auto
  qed
qed

lemma decrement_scan_found:
  "0 \<le> k \<Longrightarrow> k \<le> i \<Longrightarrow> charToIndex (pos ! nat k) \<noteq> 0 \<Longrightarrow> k \<le> decrement_scan pos i"
proof (induction pos i rule: decrement_scan.induct)
  case (1 pos i)
  show ?case
  proof (cases "i \<ge> 0 \<and> charToIndex (pos ! nat i) = 0")
    case True
    with "1.prems" have "k \<le> i - 1" by (cases "k = i") auto
    with "1.IH" [OF True "1.prems"(1) _ "1.prems"(3)] True show ?thesis
      by (subst decrement_scan.simps) simp
  next
    case False
    with "1.prems" show ?thesis
      by (subst decrement_scan.simps) auto
  qed
qed

lemma fill_max_eq:
  "j \<le> length chars \<Longrightarrow>
   fill_max chars j = take j chars @ replicate (length chars - j) (indexToChar (BASE - 1))"
proof (induction chars j rule: fill_max.induct)
  case (1 chars j)
  show ?case
  proof (cases "j < length chars")
    case True
    then have "fill_max chars j = fill_max (chars[j := indexToChar (BASE - 1)]) (j + 1)"
      by (subst fill_max.simps) simp
    also have "\<dots> = take (j + 1) (chars[j := indexToChar (BASE - 1)])
                  @ replicate (length chars - (j + 1)) (indexToChar (BASE - 1))"
      using "1.IH" [OF True] True by simp
    also have "take (j + 1) (chars[j := indexToChar (BASE - 1)])
                 = take j chars @ [indexToChar (BASE - 1)]"
      using True by (simp add: take_Suc_conv_app_nth)
    finally have "fill_max chars j = take j chars
        @ indexToChar (BASE - 1) # replicate (length chars - (j + 1)) (indexToChar (BASE - 1))"
      by simp
    moreover have "length chars - j = Suc (length chars - (j + 1))"
      using True by simp
    ultimately show ?thesis by simp
  next
    case False
    with "1.prems" show ?thesis
      by (subst fill_max.simps) simp
  qed
qed

lemma lexCompare_first_difference:
  "x \<noteq> y \<Longrightarrow> lexCompare (p @ x # r) (p @ y # r') = x - y"
  by (induction p) auto

lemma decrementPosition_less:
  assumes "\<exists>c\<in>set pos. charToIndex c \<noteq> 0"
  shows "comparePositions (decrementPosition pos) pos < 0"
proof -
  define i where "i = decrement_scan pos (int (length pos) - 1)"
  have b: "- 1 \<le> i \<and> i \<le> int (length pos) - 1
           \<and> (0 \<le> i \<longrightarrow> charToIndex (pos ! nat i) \<noteq> 0)"
    unfolding i_def by (rule decrement_scan_bounds) simp
  from assms obtain k where k: "k < length pos" "charToIndex (pos ! k) \<noteq> 0"
    by (auto simp: in_set_conv_nth)
  have "int k \<le> i"
    unfolding i_def using k by (intro decrement_scan_found) auto
  then have i0: "0 \<le> i" by simp
  define n where "n = nat i"
  from i0 b have n: "n < length pos" and i: "i = int n"
    unfolding n_def by linarith+
  from i0 b have ne: "charToIndex (pos ! n) \<noteq> 0"
    by (simp add: n_def)
  define c where "c = indexToChar (charToIndex (pos ! n) - 1)"
  have cidx: "charToIndex c = charToIndex (pos ! n) - 1"
    unfolding c_def using charToIndex_range [of "pos ! n"] ne
    by (intro charToIndex_indexToChar) auto
  define r where "r = replicate (length pos - Suc n) (indexToChar (BASE - 1)) @ [MID_CHAR]"
  have "fill_max (pos[n := c]) (Suc n)
          = take (Suc n) (pos[n := c]) @ replicate (length pos - Suc n) (indexToChar (BASE - 1))"
    using n by (subst fill_max_eq) simp_all
  then have res: "decrementPosition pos = take n pos @ c # r"
    using i0 n
    by (simp add: decrementPosition_def i_def [symmetric] i c_def r_def take_Suc_conv_app_nth)
  have pos: "pos = take n pos @ pos ! n # drop (Suc n) pos"
    using n by (rule id_take_nth_drop)
  have "lexCompare (map charToIndex (take n pos) @ charToIndex c # map charToIndex r)
          (map charToIndex (take n pos) @ charToIndex (pos ! n) # map charToIndex (drop (Suc n) pos))
        = charToIndex c - charToIndex (pos ! n)"
    by (rule lexCompare_first_difference) (simp add: cidx)
  then have "lexCompare (map charToIndex (take n pos @ c # r))
          (map charToIndex (take n pos @ pos ! n # drop (Suc n) pos)) < 0"
    by (simp add: cidx)
  then show ?thesis
    unfolding comparePositions_lex res using pos by simp
qed

lemma generatePositionBefore_less:
  assumes "isValidPosition x" and "\<exists>c\<in>set x. c \<noteq> CHR ''0''"
  shows "\<exists>y. generatePositionBefore x = Inr y \<and> comparePositions y x < 0"
proof -
  from assms(2) obtain c where c: "c \<in> set x" "c \<noteq> CHR ''0''" by blast
  from assms(1) c(1) have "c \<in> set BASE_CHARS"
    by (auto simp: isValidPosition_def list_all_iff split: if_splits)
  moreover have "CHR ''0'' \<in> set BASE_CHARS" by (simp add: BASE_CHARS_def)
  moreover have "charToIndex CHR ''0'' = 0" by code_simp
  ultimately have "charToIndex c \<noteq> 0"
    using c(2) charToIndex_inj [of c "CHR ''0''"] by auto
  with c(1) have "comparePositions (decrementPosition x) x < 0"
    by (intro decrementPosition_less) blast
  moreover from c(1) have "x \<noteq> []" by auto
  ultimately show ?thesis
    by (simp add: generatePositionBefore_def generatePositionBetween_def falsy_def)
qed

lemma generatePositionBetween_undefined:
  "generatePositionBetween None None = Inr generateInitialPosition"
  by (simp add: generatePositionBetween_def falsy_def)

text \<open>
  Claim C2 (a position generated between \<open>a < b\<close> lies strictly between them) does not
  hold of \<open>midpoint\<close>.  When the first differing symbols are adjacent the function returns
  the common prefix, the lower symbol and the mid symbol, and drops what follows the lower
  symbol in \<open>a\<close>.  Starting from the initial position: the position after \<open>V\<close> is \<open>W\<close>,
  the position between them is \<open>VV\<close>, and the position generated between \<open>VV\<close> and \<open>W\<close>
  is \<open>VV\<close> again, equal to the lower bound.  For \<open>a = Az\<close> and \<open>b = B\<close> the result \<open>AV\<close> is
  smaller than \<open>a\<close>.
\<close>

theorem midpoint_not_between:
  "generatePositionAfter ''V'' = Inr ''W''
   \<and> generatePositionBetween (Some ''V'') (Some ''W'') = Inr ''VV''
   \<and> isValidPosition ''VV'' \<and> isValidPosition ''W'' \<and> comparePositions ''VV'' ''W'' < 0
   \<and> generatePositionBetween (Some ''VV'') (Some ''W'') = Inr ''VV''
   \<and> comparePositions ''VV'' ''VV'' = 0
   \<and> isValidPosition ''Az'' \<and> isValidPosition ''B'' \<and> comparePositions ''Az'' ''B'' < 0
   \<and> generatePositionBetween (Some ''Az'') (Some ''B'') = Inr ''AV''
   \<and> comparePositions ''Az'' ''AV'' = 30"
  by code_simp

text \<open>
  Claim C3 (a position generated before \<open>x\<close> is smaller than \<open>x\<close>, also when every symbol
  of \<open>x\<close> is the alphabet minimum) does not hold of \<open>decrementPosition\<close>: for \<open>x = 0\<close> it
  returns \<open>0F\<close>, which compares greater than \<open>x\<close>.  (No valid position is smaller than
  \<open>0\<close> in the order of \<open>comparePositions\<close>.)
\<close>

theorem generatePositionBefore_all_minimum:
  "isValidPosition ''0'' \<and> generatePositionBefore ''0'' = Inr ''0F''
   \<and> comparePositions ''0F'' ''0'' = 16"
  by code_simp

section \<open>Properties of the concurrency controller\<close>

lemma same_id_same_row:
  "distinct (map row_id store) \<Longrightarrow> cur \<in> set store \<Longrightarrow> r \<in> set store \<Longrightarrow>
   row_id r = row_id cur \<Longrightarrow> r = cur"
  by (meson distinct_map inj_onD)

lemma select_by_id_unique:
  "distinct (map row_id store) \<Longrightarrow> cur \<in> set store \<Longrightarrow> select_by_id (row_id cur) store = [cur]"
  by (induction store) (auto simp: select_by_id_def filter_empty_conv image_iff)

lemma parse_accepts: "''column'' \<notin> set identifiers \<Longrightarrow> parse identifiers = Inr ()"
proof -
  assume "''column'' \<notin> set identifiers"
  then have "filter pg_reserved identifiers = []"
    by (auto simp: filter_empty_conv pg_reserved_def)
  then show ?thesis by (simp add: parse_def)
qed

lemma parse_rejects: "''column'' \<in> set identifiers \<Longrightarrow> parse identifiers = Inl (SqlSyntaxError ''column'')"
proof -
  assume "''column'' \<in> set identifiers"
  then have "filter pg_reserved identifiers \<noteq> []"
    by (auto simp: filter_empty_conv pg_reserved_def)
  then obtain w ws where f: "filter pg_reserved identifiers = w # ws"
    by (cases "filter pg_reserved identifiers") auto
  then have "w \<in> set (filter pg_reserved identifiers)" by simp
  then have "w = ''column''" by (simp add: pg_reserved_def)
  with f show ?thesis by (simp add: parse_def)
qed

lemma update_rows_absent:
  "i \<notin> row_id ` set rs \<Longrightarrow> update_rows i upd rs = Inr ([], rs)"
  by (induction rs) auto

lemma update_rows_unique:
  "distinct (map row_id store) \<Longrightarrow> cur \<in> set store \<Longrightarrow> upd cur = Inr r' \<Longrightarrow>
   update_rows (row_id cur) upd store
     = Inr ([r'], map (\<lambda>r. if row_id r = row_id cur then r' else r) store)"
proof (induction store)
  case Nil
  then show ?case by simp
next
  case (Cons r rs)
  show ?case
  proof (cases "r = cur")
    case True
    with Cons.prems have absent: "row_id cur \<notin> row_id ` set rs" by auto
    then have "\<forall>x\<in>set rs. row_id x \<noteq> row_id cur" by (auto simp: image_iff)
    then have "map (\<lambda>r. if row_id r = row_id cur then r' else r) rs = rs"
      by (intro map_idI) simp
    with True Cons.prems(3) update_rows_absent [OF absent, of upd] show ?thesis by simp
  next
    case False
    with Cons.prems have "cur \<in> set rs" and "row_id r \<noteq> row_id cur" by auto
    with Cons.IH Cons.prems show ?thesis by simp
  qed
qed

lemma update_rows_error:
  "distinct (map row_id store) \<Longrightarrow> cur \<in> set store \<Longrightarrow> upd cur = Inl e \<Longrightarrow>
   update_rows (row_id cur) upd store = Inl e"
proof (induction store)
  case Nil
  then show ?case by simp
next
  case (Cons r rs)
  show ?case
  proof (cases "r = cur")
    case True
    with Cons.prems(3) show ?thesis by simp
  next
    case False
    with Cons.prems have "cur \<in> set rs" and "row_id r \<noteq> row_id cur" by auto
    with Cons.IH Cons.prems show ?thesis by simp
  qed
qed

lemma updateTask_stale:
  assumes "distinct (map row_id store)" and "cur \<in> set store"
    and "u_id input = row_id cur" and "row_version cur \<noteq> u_version input"
  shows "updateTask now input store =
           Inr (\<lparr>ur_task = Some (rowToTask cur), ur_conflict = True,
                 ur_currentVersion = Some (row_version cur)\<rparr>, store)"
  using select_by_id_unique [OF assms(1,2)] assms(3,4) by (simp add: updateTask_def)

lemma updates_parse:
  "parse ([''tasks''] @ ((case t of None \<Rightarrow> [] | Some x \<Rightarrow> [''title''])
            @ (case d of None \<Rightarrow> [] | Some y \<Rightarrow> [''description''])
            @ [''version'', ''version'']) @ [''id'']) = Inr ()"
  by (rule parse_accepts) (auto split: option.splits)

lemma updateTask_fresh:
  assumes "distinct (map row_id store)" and "cur \<in> set store"
    and "u_id input = row_id cur" and "row_version cur = u_version input"
    and "case u_title input of None \<Rightarrow> True | Some t \<Rightarrow> length t \<le> 500"
    and "- 2147483649 \<le> row_version cur" and "row_version cur < 2147483647"
    and "row = cur\<lparr>row_title := (case u_title input of None \<Rightarrow> row_title cur | Some t \<Rightarrow> t),
                    row_description := (case u_description input of
                                          None \<Rightarrow> row_description cur | Some d \<Rightarrow> d),
                    row_version := row_version cur + 1, updated_at := now\<rparr>"
  shows "updateTask now input store =
           Inr (\<lparr>ur_task = Some (rowToTask row), ur_conflict = False, ur_currentVersion = None\<rparr>,
                map (\<lambda>r. if row_id r = row_id cur then row else r) store)"
proof -
  let ?setTitle = "\<lambda>r. case u_title input of
                          None \<Rightarrow> Inr r
                        | Some t \<Rightarrow>
                            (case varchar 500 t of
                               Inl e \<Rightarrow> Inl e
                             | Inr t' \<Rightarrow> Inr (r\<lparr>row_title := t'\<rparr>))"
  let ?setDescription = "\<lambda>r. case u_description input of
                                None \<Rightarrow> r | Some d \<Rightarrow> r\<lparr>row_description := d\<rparr>"
  let ?setVersion = "\<lambda>v r. case int4 (v + 1) of
                              Inl e \<Rightarrow> Inl e
                            | Inr v' \<Rightarrow> Inr (r\<lparr>row_version := v'\<rparr>)"
  let ?upd = "\<lambda>r. case (case ?setTitle r of
                             Inl e \<Rightarrow> Inl e
                           | Inr r' \<Rightarrow> ?setVersion (row_version r) (?setDescription r')) of
                      Inl e \<Rightarrow> Inl e
                    | Inr r' \<Rightarrow> Inr (r'\<lparr>updated_at := now\<rparr>)"
  have ap: "?upd cur = Inr row"
    unfolding assms(8) using assms(5,6,7)
    by (cases "u_title input"; cases "u_description input") (simp_all add: varchar_def int4_def)
  have "update_rows (row_id cur) ?upd store
          = Inr ([row], map (\<lambda>r. if row_id r = row_id cur then row else r) store)"
    using assms(1,2) ap by (rule update_rows_unique [where upd = ?upd])
  then show ?thesis
    unfolding updateTask_def Let_def update_by_id_def updates_parse
    using select_by_id_unique [OF assms(1,2)] assms(3,4) by simp
qed

lemma updateTask_overflow:
  assumes "distinct (map row_id store)" and "cur \<in> set store"
    and "u_id input = row_id cur" and "row_version cur = u_version input"
    and "u_title input = None" and "row_version cur = 2147483647"
  shows "updateTask now input store = Inl NumericValueOutOfRange"
proof -
  let ?upd = "\<lambda>r. case (case (case u_title input of
                          None \<Rightarrow> Inr r
                        | Some t \<Rightarrow>
                            (case varchar 500 t of
                               Inl e \<Rightarrow> Inl e
                             | Inr t' \<Rightarrow> Inr (r\<lparr>row_title := t'\<rparr>))) of
                             Inl e \<Rightarrow> Inl e
                           | Inr r' \<Rightarrow> (case int4 (row_version r + 1) of
                              Inl e \<Rightarrow> Inl e
                            | Inr v' \<Rightarrow> Inr ((case u_description input of
                                None \<Rightarrow> r' | Some d \<Rightarrow> r'\<lparr>row_description := d\<rparr>)\<lparr>row_version := v'\<rparr>))) of
                      Inl e \<Rightarrow> Inl e
                    | Inr r' \<Rightarrow> Inr (r'\<lparr>updated_at := now\<rparr>)"
  have ap: "?upd cur = Inl NumericValueOutOfRange"
    using assms(5,6) by (simp add: int4_def)
  have "update_rows (row_id cur) ?upd store = Inl NumericValueOutOfRange"
    using assms(1,2) ap by (rule update_rows_error [where upd = ?upd])
  then show ?thesis
    unfolding updateTask_def Let_def update_by_id_def updates_parse
    using select_by_id_unique [OF assms(1,2)] assms(3,4) by simp
qed

lemma moveTask_stale:
  assumes "distinct (map row_id store)" and "cur \<in> set store"
    and "m_id input = row_id cur" and "row_version cur \<noteq> m_version input"
  shows "moveTask now input store =
           Inr (\<lparr>mr_task = Some (rowToTask cur), mr_conflict = True,
                 mr_currentVersion = Some (row_version cur),
                 mr_conflictType = Some version_mismatch\<rparr>, store)"
  using select_by_id_unique [OF assms(1,2)] assms(3,4) by (simp add: moveTask_def)

lemma moveTask_equal_version_raises:
  assumes "select_by_id (m_id input) store = cur # rest" and "row_version cur = m_version input"
  shows "moveTask now input store = Inl (SqlSyntaxError ''column'')"
proof -
  have "parse [''tasks'', ''column'', ''position'', ''version'', ''version'', ''id'']
          = Inl (SqlSyntaxError ''column'')"
    by (rule parse_rejects) simp
  with assms show ?thesis
    by (simp add: moveTask_def update_by_id_def)
qed

lemma deleteTask_stale:
  assumes "distinct (map row_id store)" and "cur \<in> set store" and "row_version cur \<noteq> v"
  shows "deleteTask (row_id cur) v store = (\<lparr>deleted = False, dr_conflict = True\<rparr>, store)"
  using select_by_id_unique [OF assms(1,2)] assms(3) by (simp add: deleteTask_def)




text \<open>
  Claim C5.  For a valid request with a stale version the service classifies the conflict
  as \<open>version_mismatch\<close> for an update and for a delete, and as \<open>concurrent_move\<close> for a
  move (whether or not the column changed); the message of the move conflict names the
  column the stored record is in.
\<close>

theorem stale_conflict_classification:
  assumes "distinct (map row_id store)" and "cur \<in> set store"
    and "UpdateTaskSchema isUuid upd = Some upd" and "u_id upd = row_id cur"
    and "u_version upd \<noteq> row_version cur"
    and "MoveTaskSchema isUuid mv = Some mv" and "m_id mv = row_id cur"
    and "m_version mv \<noteq> row_version cur"
    and "DeleteTaskSchema isUuid del = Some del" and "d_id del = row_id cur"
    and "d_version del \<noteq> row_version cur"
  shows "service_updateTask isUuid now upd store =
           (\<lparr>success = False, data = None, error = None,
             conflict = Some
               \<lparr>conflict_type = version_mismatch, currentVersion = Some (row_version cur),
                currentTask = Some (rowToTask cur),
                message = ''Task was modified by another user. Your changes could not be applied.''\<rparr>\<rparr>,
            store)
       \<and> service_deleteTask isUuid del store =
           (\<lparr>success = False, data = None, error = None,
             conflict = Some
               \<lparr>conflict_type = version_mismatch, currentVersion = None, currentTask = None,
                message = ''Task was modified by another user and cannot be deleted.''\<rparr>\<rparr>,
            store)
       \<and> service_moveTask isUuid now mv store =
           (\<lparr>success = False, data = None, error = None,
             conflict = Some
               \<lparr>conflict_type = concurrent_move, currentVersion = Some (row_version cur),
                currentTask = Some (rowToTask cur),
                message = ''Task was moved by another user to '' @ [CHR 0x22]
                  @ column_name (row_column cur) @ [CHR 0x22]
                  @ ''. Your move was not applied.''\<rparr>\<rparr>,
            store)"
proof (intro conjI)
  have "updateTask now upd store =
           Inr (\<lparr>ur_task = Some (rowToTask cur), ur_conflict = True,
                 ur_currentVersion = Some (row_version cur)\<rparr>, store)"
    using assms(5) by (intro updateTask_stale [OF assms(1,2,4)]) simp
  then show "service_updateTask isUuid now upd store =
           (\<lparr>success = False, data = None, error = None,
             conflict = Some
               \<lparr>conflict_type = version_mismatch, currentVersion = Some (row_version cur),
                currentTask = Some (rowToTask cur),
                message = ''Task was modified by another user. Your changes could not be applied.''\<rparr>\<rparr>,
            store)"
    by (simp add: service_updateTask_def assms(3))
next
  have "deleteTask (d_id del) (d_version del) store = (\<lparr>deleted = False, dr_conflict = True\<rparr>, store)"
    unfolding assms(10) using assms(11) by (intro deleteTask_stale [OF assms(1,2)]) simp
  then show "service_deleteTask isUuid del store =
           (\<lparr>success = False, data = None, error = None,
             conflict = Some
               \<lparr>conflict_type = version_mismatch, currentVersion = None, currentTask = None,
                message = ''Task was modified by another user and cannot be deleted.''\<rparr>\<rparr>,
            store)"
    by (simp add: service_deleteTask_def assms(9))
next
  have "moveTask now mv store =
           Inr (\<lparr>mr_task = Some (rowToTask cur), mr_conflict = True,
                 mr_currentVersion = Some (row_version cur),
                 mr_conflictType = Some version_mismatch\<rparr>, store)"
    using assms(8) by (intro moveTask_stale [OF assms(1,2,7)]) simp
  then show "service_moveTask isUuid now mv store =
           (\<lparr>success = False, data = None, error = None,
             conflict = Some
               \<lparr>conflict_type = concurrent_move, currentVersion = Some (row_version cur),
                currentTask = Some (rowToTask cur),
                message = ''Task was moved by another user to '' @ [CHR 0x22]
                  @ column_name (row_column cur) @ [CHR 0x22]
                  @ ''. Your move was not applied.''\<rparr>\<rparr>,
            store)"
    by (simp add: service_moveTask_def assms(6) rowToTask_def)
qed

theorem stale_conflict_classification_witness:
  "service_moveTask (\<lambda>s. length s = 36) 9
     \<lparr>m_id = ''123e4567-e89b-42d3-a456-426614174000'', m_column = Done, m_position = ''W'',
      m_version = 1\<rparr>
     [\<lparr>row_id = ''123e4567-e89b-42d3-a456-426614174000'', row_title = ''t'',
       row_description = [], row_column = In_progress, row_position = ''V'', row_version = 2,
       created_at = 3, updated_at = 4\<rparr>]
   = (\<lparr>success = False, data = None, error = None,
       conflict = Some
         \<lparr>conflict_type = concurrent_move, currentVersion = Some 2,
          currentTask = Some \<lparr>taskId = ''123e4567-e89b-42d3-a456-426614174000'', title = ''t'',
                              description = [], column = In_progress, position = ''V'',
                              version = 2, createdAt = 3, updatedAt = 4\<rparr>,
          message = ''Task was moved by another user to '' @ [CHR 0x22] @ ''in_progress''
                      @ [CHR 0x22] @ ''. Your move was not applied.''\<rparr>\<rparr>,
      [\<lparr>row_id = ''123e4567-e89b-42d3-a456-426614174000'', row_title = ''t'',
       row_description = [], row_column = In_progress, row_position = ''V'', row_version = 2,
       created_at = 3, updated_at = 4\<rparr>])
   \<and> service_updateTask (\<lambda>s. length s = 36) 9
     \<lparr>u_id = ''123e4567-e89b-42d3-a456-426614174000'', u_title = Some ''x'',
      u_description = None, u_version = 1\<rparr>
     [\<lparr>row_id = ''123e4567-e89b-42d3-a456-426614174000'', row_title = ''t'',
       row_description = [], row_column = In_progress, row_position = ''V'', row_version = 2,
       created_at = 3, updated_at = 4\<rparr>]
   = (\<lparr>success = False, data = None, error = None,
       conflict = Some
         \<lparr>conflict_type = version_mismatch, currentVersion = Some 2,
          currentTask = Some \<lparr>taskId = ''123e4567-e89b-42d3-a456-426614174000'', title = ''t'',
                              description = [], column = In_progress, position = ''V'',
                              version = 2, createdAt = 3, updatedAt = 4\<rparr>,
          message = ''Task was modified by another user. Your changes could not be applied.''\<rparr>\<rparr>,
      [\<lparr>row_id = ''123e4567-e89b-42d3-a456-426614174000'', row_title = ''t'',
       row_description = [], row_column = In_progress, row_position = ''V'', row_version = 2,
       created_at = 3, updated_at = 4\<rparr>])
   \<and> conflict (fst (service_deleteTask (\<lambda>s. length s = 36)
         \<lparr>d_id = ''123e4567-e89b-42d3-a456-426614174000'', d_version = 1\<rparr>
         [\<lparr>row_id = ''123e4567-e89b-42d3-a456-426614174000'', row_title = ''t'',
       row_description = [], row_column = In_progress, row_position = ''V'', row_version = 2,
       created_at = 3, updated_at = 4\<rparr>]))
     = Some \<lparr>conflict_type = version_mismatch, currentVersion = None, currentTask = None,
             message = ''Task was modified by another user and cannot be deleted.''\<rparr>"
  using stale_conflict_classification
    [of "[\<lparr>row_id = ''123e4567-e89b-42d3-a456-426614174000'', row_title = ''t'',
       row_description = [], row_column = In_progress, row_position = ''V'', row_version = 2,
       created_at = 3, updated_at = 4\<rparr>]"
        "\<lparr>row_id = ''123e4567-e89b-42d3-a456-426614174000'', row_title = ''t'',
       row_description = [], row_column = In_progress, row_position = ''V'', row_version = 2,
       created_at = 3, updated_at = 4\<rparr>"
        "\<lambda>s. length s = 36"
        "\<lparr>u_id = ''123e4567-e89b-42d3-a456-426614174000'', u_title = Some ''x'',
          u_description = None, u_version = 1\<rparr>"
        "\<lparr>m_id = ''123e4567-e89b-42d3-a456-426614174000'', m_column = Done, m_position = ''W'',
          m_version = 1\<rparr>"
        "\<lparr>d_id = ''123e4567-e89b-42d3-a456-426614174000'', d_version = 1\<rparr>" 9]
  by (simp add: UpdateTaskSchema_def MoveTaskSchema_def DeleteTaskSchema_def rowToTask_def)

text \<open>
  Claim C6 (every conflict result carries the current record, also for a stale delete)
  does not hold of \<open>deleteTask\<close>: the repository reads only the version and the service
  builds the conflict without \<open>currentTask\<close>, where the update and move paths include it.
\<close>

theorem stale_delete_conflict_without_record:
  "service_deleteTask (\<lambda>s. length s = 36)
     \<lparr>d_id = ''123e4567-e89b-42d3-a456-426614174000'', d_version = 1\<rparr>
     [\<lparr>row_id = ''123e4567-e89b-42d3-a456-426614174000'', row_title = ''t'',
       row_description = [], row_column = In_progress, row_position = ''V'', row_version = 2,
       created_at = 3, updated_at = 4\<rparr>]
   = (\<lparr>success = False, data = None, error = None,
       conflict = Some
         \<lparr>conflict_type = version_mismatch, currentVersion = None, currentTask = None,
          message = ''Task was modified by another user and cannot be deleted.''\<rparr>\<rparr>,
      [\<lparr>row_id = ''123e4567-e89b-42d3-a456-426614174000'', row_title = ''t'',
        row_description = [], row_column = In_progress, row_position = ''V'', row_version = 2,
        created_at = 3, updated_at = 4\<rparr>])"
  by (simp add: service_deleteTask_def DeleteTaskSchema_def deleteTask_def select_by_id_def)

text \<open>
  Claim C10, as the code has it.  For a stored task whose version is below the largest
  value of the \<open>INTEGER\<close> column, an update request that carries the task's identifier and
  version and neither a title nor a description passes the schema, succeeds, and changes
  only the version (by one) and the trigger's time stamp: title, description, column and
  position stay as they were.
\<close>

theorem update_without_fields_bumps_version:
  assumes "distinct (map row_id store)" and "cur \<in> set store"
    and "isUuid (row_id cur)" and "0 < row_version cur" and "row_version cur < 2147483647"
  shows "\<exists>task. service_updateTask isUuid now
                  \<lparr>u_id = row_id cur, u_title = None, u_description = None,
                   u_version = row_version cur\<rparr> store
                = (\<lparr>success = True, data = Some task, error = None, conflict = None\<rparr>,
                   map (\<lambda>r. if row_id r = row_id cur
                             then cur\<lparr>row_version := row_version cur + 1, updated_at := now\<rparr>
                             else r) store)
              \<and> version task = row_version cur + 1
              \<and> title task = row_title cur
              \<and> description task = row_description cur
              \<and> column task = row_column cur
              \<and> position task = row_position cur
              \<and> taskId task = row_id cur"
proof -
  let ?input = "\<lparr>u_id = row_id cur, u_title = None, u_description = None,
                   u_version = row_version cur\<rparr>"
  let ?row = "cur\<lparr>row_version := row_version cur + 1, updated_at := now\<rparr>"
  have valid: "UpdateTaskSchema isUuid ?input = Some ?input"
    using assms(3,4) by (simp add: UpdateTaskSchema_def)
  have "updateTask now ?input store =
           Inr (\<lparr>ur_task = Some (rowToTask ?row), ur_conflict = False, ur_currentVersion = None\<rparr>,
                map (\<lambda>r. if row_id r = row_id cur then ?row else r) store)"
    using assms(4,5) by (intro updateTask_fresh [OF assms(1,2)]) simp_all
  then have "service_updateTask isUuid now ?input store =
               (\<lparr>success = True, data = Some (rowToTask ?row), error = None, conflict = None\<rparr>,
                map (\<lambda>r. if row_id r = row_id cur then ?row else r) store)"
    by (simp add: service_updateTask_def valid)
  then show ?thesis
    by (intro exI conjI, assumption) (simp_all add: rowToTask_def)
qed

theorem update_without_fields_bumps_version_witness:
  "\<exists>task. service_updateTask (\<lambda>s. length s = 36) 9
            \<lparr>u_id = ''123e4567-e89b-42d3-a456-426614174000'', u_title = None,
             u_description = None, u_version = 2\<rparr>
            [\<lparr>row_id = ''123e4567-e89b-42d3-a456-426614174000'', row_title = ''t'',
              row_description = ''d'', row_column = In_progress, row_position = ''V'',
              row_version = 2, created_at = 3, updated_at = 4\<rparr>]
          = (\<lparr>success = True, data = Some task, error = None, conflict = None\<rparr>,
             [\<lparr>row_id = ''123e4567-e89b-42d3-a456-426614174000'', row_title = ''t'',
               row_description = ''d'', row_column = In_progress, row_position = ''V'',
               row_version = 3, created_at = 3, updated_at = 9\<rparr>])
        \<and> version task = 3 \<and> title task = ''t'' \<and> description task = ''d''
        \<and> column task = In_progress \<and> position task = ''V''"
  using update_without_fields_bumps_version
    [of "[\<lparr>row_id = ''123e4567-e89b-42d3-a456-426614174000'', row_title = ''t'',
              row_description = ''d'', row_column = In_progress, row_position = ''V'',
              row_version = 2, created_at = 3, updated_at = 4\<rparr>]"
        "\<lparr>row_id = ''123e4567-e89b-42d3-a456-426614174000'', row_title = ''t'',
              row_description = ''d'', row_column = In_progress, row_position = ''V'',
              row_version = 2, created_at = 3, updated_at = 4\<rparr>"
        "\<lambda>s. length s = 36" 9]
  by auto

text \<open>
  Claim C10 as written fails for a stored task at the largest value of the \<open>INTEGER\<close>
  column: \<open>version + 1\<close> is out of range, the statement raises, the service answers with
  a failure and the row stays as it was.
\<close>

theorem update_at_integer_limit_counterexample:
  "service_updateTask (\<lambda>s. length s = 36) 9
     \<lparr>u_id = ''123e4567-e89b-42d3-a456-426614174000'', u_title = None,
      u_description = None, u_version = 2147483647\<rparr>
     [\<lparr>row_id = ''123e4567-e89b-42d3-a456-426614174000'', row_title = ''t'',
       row_description = ''d'', row_column = In_progress, row_position = ''V'',
       row_version = 2147483647, created_at = 3, updated_at = 4\<rparr>]
   = (\<lparr>success = False, data = None, error = Some (Message ''Failed to update task''),
       conflict = None\<rparr>,
      [\<lparr>row_id = ''123e4567-e89b-42d3-a456-426614174000'', row_title = ''t'',
        row_description = ''d'', row_column = In_progress, row_position = ''V'',
        row_version = 2147483647, created_at = 3, updated_at = 4\<rparr>])"
  by (simp add: service_updateTask_def UpdateTaskSchema_def updateTask_def select_by_id_def
      update_by_id_def parse_def pg_reserved_def int4_def)

subsection \<open>Creation\<close>

text \<open>
  Both statements of \<open>createTask\<close> name the column \<open>column\<close> with a bare reserved word,
  so the first of them raises whatever the request and the table are.
\<close>

lemma createTask_raises: "createTask le newId now input store = Inl (SqlSyntaxError ''column'')"
proof -
  have "parse [''position'', ''tasks'', ''column'', ''position''] = Inl (SqlSyntaxError ''column'')"
    by (rule parse_rejects) simp
  then show ?thesis
    by (simp add: createTask_def select_last_position_def)
qed

lemma service_createTask_fails:
  "CreateTaskSchema input = Some validated \<Longrightarrow>
   service_createTask le newId now input store
     = (\<lparr>success = False, data = None, error = Some (Message ''Failed to create task''),
         conflict = None\<rparr>, store)"
  by (simp add: service_createTask_def createTask_raises)

text \<open>
  Claim C7 (every valid create request succeeds, with version \<open>1\<close> and a position after
  the greatest one of the column) does not hold of \<open>createTask\<close>: for a request that
  passes the schema, on the empty table, the \<open>SELECT\<close> of the last position raises a
  syntax error and the service answers with a failure.
\<close>

theorem create_raises_syntax_error:
  "CreateTaskSchema \<lparr>raw_title = ''Write report'', raw_description = None, raw_column = None\<rparr>
     = Some \<lparr>c_title = ''Write report'', c_description = [], c_column = Todo\<rparr>
   \<and> createTask (\<lambda>a b. comparePositions a b \<le> 0) ''123e4567-e89b-42d3-a456-426614174000'' 9
       \<lparr>c_title = ''Write report'', c_description = [], c_column = Todo\<rparr> []
     = Inl (SqlSyntaxError ''column'')
   \<and> service_createTask (\<lambda>a b. comparePositions a b \<le> 0)
       ''123e4567-e89b-42d3-a456-426614174000'' 9
       \<lparr>raw_title = ''Write report'', raw_description = None, raw_column = None\<rparr> []
     = (\<lparr>success = False, data = None, error = Some (Message ''Failed to create task''),
         conflict = None\<rparr>, [])"
  by (simp add: CreateTaskSchema_def service_createTask_def createTask_def
      select_last_position_def parse_def pg_reserved_def)

section \<open>Properties of the client\<close>

lemma sortTasksByPosition_idem:
  "sortTasksByPosition collate (sortTasksByPosition collate ts) = sortTasksByPosition collate ts"
  unfolding sortTasksByPosition_def by (rule sort_key_id_if_sorted) (rule sorted_sort_key)

lemma set_sortTasksByPosition: "set (sortTasksByPosition collate ts) = set ts"
  by (simp add: sortTasksByPosition_def)

lemma find_Some_if_member: "x \<in> set xs \<Longrightarrow> P x \<Longrightarrow> find P xs \<noteq> None"
  by (auto simp: find_None_iff)

lemma resolvePendingOperation_idem:
  "resolvePendingOperation mid (resolvePendingOperation mid state) = resolvePendingOperation mid state"
  by (simp add: resolvePendingOperation_def)

lemma store_updateTask_settled:
  assumes "\<forall>t\<in>set ts. taskId t = taskId task \<longrightarrow> t = task" and "task \<in> set ts"
    and "tasks state = sortTasksByPosition collate ts"
    and "pendingOperations state mid = None"
  shows "handle_sync_ack collate \<lparr>ack_messageId = mid, ack_task = Some task\<rparr> state = state"
proof -
  have r: "resolvePendingOperation mid state = state"
    using assms(4) by (simp add: resolvePendingOperation_def fun_upd_idem)
  have "task \<in> set (tasks state)"
    using assms(2,3) by (simp add: set_sortTasksByPosition)
  then have f: "getTaskById (taskId task) state \<noteq> None"
    unfolding getTaskById_def by (rule find_Some_if_member) simp
  have "map (\<lambda>t. if taskId t = taskId task then task else t) (tasks state) = tasks state"
    using assms(1,3) by (intro map_idI) (auto simp: set_sortTasksByPosition)
  then have "store_updateTask collate task state = state"
    by (simp add: store_updateTask_def assms(3) sortTasksByPosition_idem)
  with f r show ?thesis
    by (auto simp: handle_sync_ack_def)
qed

text \<open>
  Claim C9.  Handling the same \<open>sync:ack\<close> message a second time leaves the state reached
  after the first handling as it is: the task list is the same and nothing more is removed
  from the pending operations.
\<close>

theorem sync_ack_idempotent:
  "handle_sync_ack collate p (handle_sync_ack collate p state) = handle_sync_ack collate p state"
proof (cases "ack_task p")
  case None
  then show ?thesis
    by (simp add: handle_sync_ack_def resolvePendingOperation_idem)
next
  case (Some task)
  have p: "p = \<lparr>ack_messageId = ack_messageId p, ack_task = Some task\<rparr>"
    using Some by simp
  let ?s1 = "resolvePendingOperation (ack_messageId p) state"
  have pend: "pendingOperations ?s1 (ack_messageId p) = None"
    by (simp add: resolvePendingOperation_def)
  show ?thesis
  proof (cases "getTaskById (taskId task) ?s1")
    case None
    then have h: "handle_sync_ack collate p state = addTask collate task ?s1"
      using Some by (simp add: handle_sync_ack_def)
    from None have "\<forall>t\<in>set (tasks ?s1). taskId t \<noteq> taskId task"
      by (auto simp: getTaskById_def find_None_iff)
    then have a: "\<forall>t\<in>set (tasks ?s1 @ [task]). taskId t = taskId task \<longrightarrow> t = task"
      by auto
    have "handle_sync_ack collate \<lparr>ack_messageId = ack_messageId p, ack_task = Some task\<rparr>
            (addTask collate task ?s1) = addTask collate task ?s1"
      by (rule store_updateTask_settled [OF a]) (simp_all add: addTask_def pend)
    with h p show ?thesis by simp
  next
    case (Some existingTask)
    then have h: "handle_sync_ack collate p state = store_updateTask collate task ?s1"
      using \<open>ack_task p = Some task\<close> by (simp add: handle_sync_ack_def)
    let ?ts = "map (\<lambda>t. if taskId t = taskId task then task else t) (tasks ?s1)"
    from Some have "existingTask \<in> set (tasks ?s1) \<and> taskId existingTask = taskId task"
      by (auto simp: getTaskById_def find_Some_iff)
    then have m: "task \<in> set ?ts"
      by (auto simp: image_iff intro!: bexI [of _ existingTask])
    have a: "\<forall>t\<in>set ?ts. taskId t = taskId task \<longrightarrow> t = task"
      by auto
    have "handle_sync_ack collate \<lparr>ack_messageId = ack_messageId p, ack_task = Some task\<rparr>
            (store_updateTask collate task ?s1) = store_updateTask collate task ?s1"
      by (rule store_updateTask_settled [OF a m]) (simp_all add: store_updateTask_def pend)
    with h p show ?thesis by simp
  qed
qed

lemma replay_open:
  "readyOpen ws \<Longrightarrow>
   replay stringify q (state, ws) =
     (state\<lparr>offlineQueue := filter (\<lambda>op. op_id op \<notin> set (map op_id q)) (offlineQueue state)\<rparr>,
      ws\<lparr>sent := sent ws @ map (\<lambda>op. stringify (op_payload op)) q\<rparr>)"
proof (induction q arbitrary: state ws)
  case Nil
  then show ?case by simp
next
  case (Cons operation q)
  have "readyOpen (ws_send (stringify (op_payload operation)) ws)"
    using Cons.prems by (simp add: ws_send_def)
  from Cons.IH [OF this] Cons.prems show ?case
    by (simp add: removeFromQueue_def ws_send_def conj_commute)
qed

lemma onopen_open:
  assumes "readyOpen ws"
  shows "onopen stringify (state, ws) =
           (state\<lparr>connectionStatus := connected, offlineQueue := []\<rparr>,
            ws\<lparr>sent := sent ws @ map (\<lambda>op. stringify (op_payload op)) (offlineQueue state)\<rparr>)"
proof -
  have "filter (\<lambda>op. op_id op \<notin> set (map op_id (offlineQueue state))) (offlineQueue state) = []"
    by (simp add: filter_empty_conv)
  then show ?thesis
    using assms by (simp add: onopen_def setConnectionStatus_def replay_open)
qed

lemma sendMessage_offline:
  assumes "\<not> readyOpen ws"
  shows "foldl (\<lambda>s (now, mid, queuedAt, oid, msg).
                  fst (sendMessage stringify now mid queuedAt oid msg s)) (state, ws) calls
         = (state\<lparr>offlineQueue := offlineQueue state @
               map (\<lambda>(now, mid, queuedAt, oid, msg).
                      \<lparr>op_id = oid, op_type = fst msg,
                       op_payload = \<lparr>msg_type = fst msg, payload = snd msg,
                                     clientId = (if falsy (currentUserId state) then ''unknown''
                                                 else the (currentUserId state)),
                                     timestamp = now, messageId = mid\<rparr>,
                       op_timestamp = queuedAt, retryCount = 0\<rparr>) calls\<rparr>, ws)"
proof (induction calls arbitrary: state)
  case Nil
  then show ?case by simp
next
  case (Cons c calls)
  obtain now mid queuedAt oid msg where c: "c = (now, mid, queuedAt, oid, msg)"
    by (cases c) auto
  define state' where "state' = addToQueue oid queuedAt (fst msg)
      \<lparr>msg_type = fst msg, payload = snd msg,
       clientId = (if falsy (currentUserId state) then ''unknown'' else the (currentUserId state)),
       timestamp = now, messageId = mid\<rparr> state"
  have step: "fst (sendMessage stringify now mid queuedAt oid msg (state, ws)) = (state', ws)"
    using assms by (simp add: sendMessage_def state'_def)
  have "foldl (\<lambda>s (now, mid, queuedAt, oid, msg).
                  fst (sendMessage stringify now mid queuedAt oid msg s)) (state, ws) (c # calls)
        = foldl (\<lambda>s (now, mid, queuedAt, oid, msg).
                  fst (sendMessage stringify now mid queuedAt oid msg s)) (state', ws) calls"
    unfolding c by (simp only: foldl_Cons prod.case step)
  then show ?case
    unfolding Cons.IH [of state'] c by (simp add: state'_def addToQueue_def)
qed

text \<open>
  Claim C8.  Let commands be issued while the socket is not open, and let a new socket
  open afterwards.  The replay hands to \<open>send\<close>, in the order of the queue, the stored
  payload of each queued operation; the queue holds the operations that were there
  before followed by the issued commands in the order of issue, each payload being the
  full message built when the command was issued (with the payload, and so the version,
  it was given); nothing was sent while offline, and the queue is empty after the replay.
\<close>

theorem replay_fifo_unmodified:
  assumes "\<not> readyOpen ws0" and "readyOpen ws"
    and "offline = foldl (\<lambda>s (now, mid, queuedAt, oid, msg).
                            fst (sendMessage stringify now mid queuedAt oid msg s))
                     (state, ws0) calls"
  shows "sent (snd (onopen stringify (fst offline, ws)))
           = sent ws @ map (\<lambda>op. stringify (op_payload op)) (offlineQueue (fst offline))
       \<and> map op_payload (offlineQueue (fst offline))
           = map op_payload (offlineQueue state) @
             map (\<lambda>(now, mid, queuedAt, oid, msg).
                    \<lparr>msg_type = fst msg, payload = snd msg,
                     clientId = (if falsy (currentUserId state) then ''unknown''
                                 else the (currentUserId state)),
                     timestamp = now, messageId = mid\<rparr>) calls
       \<and> sent (snd offline) = sent ws0
       \<and> offlineQueue (fst (onopen stringify (fst offline, ws))) = []"
proof -
  have off: "offline = (state\<lparr>offlineQueue := offlineQueue state @
               map (\<lambda>(now, mid, queuedAt, oid, msg).
                      \<lparr>op_id = oid, op_type = fst msg,
                       op_payload = \<lparr>msg_type = fst msg, payload = snd msg,
                                     clientId = (if falsy (currentUserId state) then ''unknown''
                                                 else the (currentUserId state)),
                                     timestamp = now, messageId = mid\<rparr>,
                       op_timestamp = queuedAt, retryCount = 0\<rparr>) calls\<rparr>, ws0)"
    unfolding assms(3) by (rule sendMessage_offline [OF assms(1)])
  have 1: "sent (snd (onopen stringify (fst offline, ws)))
           = sent ws @ map (\<lambda>op. stringify (op_payload op)) (offlineQueue (fst offline))"
    by (simp add: onopen_open [OF assms(2)])
  have 2: "map op_payload (offlineQueue (fst offline))
           = map op_payload (offlineQueue state) @
             map (\<lambda>(now, mid, queuedAt, oid, msg).
                    \<lparr>msg_type = fst msg, payload = snd msg,
                     clientId = (if falsy (currentUserId state) then ''unknown''
                                 else the (currentUserId state)),
                     timestamp = now, messageId = mid\<rparr>) calls"
    unfolding off by (simp add: comp_def case_prod_unfold)
  have 3: "sent (snd offline) = sent ws0"
    unfolding off by simp
  have 4: "offlineQueue (fst (onopen stringify (fst offline, ws))) = []"
    by (simp add: onopen_open [OF assms(2)])
  from 1 2 3 4 show ?thesis by blast
qed

theorem replay_fifo_unmodified_witness:
  "sent (snd (onopen (\<lambda>m. messageId m @ '':'' @ payload m)
           (fst (foldl (\<lambda>s (now, mid, queuedAt, oid, msg).
                     fst (sendMessage (\<lambda>m. messageId m @ '':'' @ payload m) now mid queuedAt oid msg s))
                  (\<lparr>tasks = [], currentUserId = Some ''u1'', connectionStatus = disconnected,
                    offlineQueue = [], pendingOperations = Map.empty\<rparr>,
                   \<lparr>readyOpen = False, sent = []\<rparr>)
                  [(1, ''m1'', 2, ''q1'', (''task:update'', ''v1'')),
                   (3, ''m2'', 4, ''q2'', (''task:delete'', ''v2''))]),
            \<lparr>readyOpen = True, sent = []\<rparr>)))
   = [''m1:v1'', ''m2:v2'']"
  using replay_fifo_unmodified
    [of "\<lparr>readyOpen = False, sent = []\<rparr>" "\<lparr>readyOpen = True, sent = []\<rparr>" _
        "\<lambda>m. messageId m @ '':'' @ payload m"
        "\<lparr>tasks = [], currentUserId = Some ''u1'', connectionStatus = disconnected,
                    offlineQueue = [], pendingOperations = Map.empty\<rparr>"
        "[(1, ''m1'', 2, ''q1'', (''task:update'', ''v1'')),
                   (3, ''m2'', 4, ''q2'', (''task:delete'', ''v2''))]", OF _ _ refl]
  by (simp add: sendMessage_def addToQueue_def falsy_def)

end
